theory Spec2Isabelle
  imports Complex_Main
begin

section \<open>Identity pool (identity-pool module)\<close>

text \<open>
  Times are millisecond timestamps as returned by \<^verbatim>\<open>Date.now()\<close>; every function that
  reads the clock takes the reading as the argument \<open>now\<close>. The JWT decoder of the
  \<^verbatim>\<open>jsonwebtoken\<close> package is not part of the repository: it is the parameter \<open>jwt_exp\<close>,
  which gives the \<^verbatim>\<open>exp\<close> claim (in seconds) of a token that decodes to a payload with such
  a claim, and \<open>None\<close> otherwise.
\<close>

datatype identity_status = HEALTHY | DEGRADED | DOWN

record identity =
  ident :: string
  cookie :: string
  token :: "string option"
  tokenExp :: "int option"
  status :: identity_status
  failCount :: int
  lastUsedAt :: "int option"
  nextRetryAt :: "int option"
  lastError :: "string option"

definition new_identity :: "string \<Rightarrow> string \<Rightarrow> identity" where
  "new_identity i c =
     \<lparr>ident = i, cookie = c, token = None, tokenExp = None, status = HEALTHY,
      failCount = 0, lastUsedAt = None, nextRetryAt = None, lastError = None\<rparr>"

text \<open>\<^verbatim>\<open>isTokenExpired\<close> of the configuration module: a token without a readable, truthy
  \<^verbatim>\<open>exp\<close> counts as expired.\<close>

definition isTokenExpired :: "(string \<Rightarrow> int option) \<Rightarrow> int \<Rightarrow> string \<Rightarrow> bool" where
  "isTokenExpired jwt_exp now tok =
     (case jwt_exp tok of
        None \<Rightarrow> True
      | Some e \<Rightarrow> if e = 0 then True else e < now div 1000)"

text \<open>\<^verbatim>\<open>getTokenExpiryTime\<close>: the expiry in milliseconds, or null.\<close>

definition getTokenExpiryTime :: "(string \<Rightarrow> int option) \<Rightarrow> string \<Rightarrow> int option" where
  "getTokenExpiryTime jwt_exp tok =
     (case jwt_exp tok of
        None \<Rightarrow> None
      | Some e \<Rightarrow> if e = 0 then None else Some (e * 1000))"

text \<open>JavaScript truthiness of the nullable token: null and the empty string are falsy.
  In \<^verbatim>\<open>isAvailable\<close> the same holds of \<^verbatim>\<open>nextRetryAt\<close>, where null and 0 are falsy.\<close>

definition truthy_token :: "string option \<Rightarrow> bool" where
  "truthy_token t = (case t of None \<Rightarrow> False | Some s \<Rightarrow> s \<noteq> [])"

definition isAvailable :: "(string \<Rightarrow> int option) \<Rightarrow> int \<Rightarrow> identity \<Rightarrow> bool" where
  "isAvailable jwt_exp now i =
     (if status i = DOWN then False
      else if (case nextRetryAt i of None \<Rightarrow> False | Some t \<Rightarrow> t \<noteq> 0 \<and> now < t) then False
      else if (case token i of None \<Rightarrow> True
               | Some tok \<Rightarrow> tok = [] \<or> isTokenExpired jwt_exp now tok) then False
      else True)"

definition markFailure :: "int \<Rightarrow> string option \<Rightarrow> identity \<Rightarrow> identity" where
  "markFailure now err i =
     (let i1 = i\<lparr>failCount := failCount i + 1, lastError := err\<rparr>
      in if failCount i1 \<ge> 5 then
           i1\<lparr>status := DOWN, nextRetryAt := Some (now + 5 * 60 * 1000)\<rparr>
         else if failCount i1 \<ge> 3 then
           i1\<lparr>status := DEGRADED, nextRetryAt := Some (now + 2 * 60 * 1000)\<rparr>
         else i1)"

definition markSuccess :: "(string \<Rightarrow> int option) \<Rightarrow> int \<Rightarrow> identity \<Rightarrow> identity" where
  "markSuccess jwt_exp now i =
     (let i1 = (if failCount i > 0 then i\<lparr>failCount := max 0 (failCount i - 1)\<rparr> else i);
          i2 = (if status i1 \<noteq> HEALTHY \<and> isAvailable jwt_exp now i1
                then i1\<lparr>status := HEALTHY, nextRetryAt := None\<rparr> else i1)
      in i2\<lparr>lastUsedAt := Some now\<rparr>)"

definition updateToken :: "(string \<Rightarrow> int option) \<Rightarrow> string \<Rightarrow> identity \<Rightarrow> identity" where
  "updateToken jwt_exp tok i = i\<lparr>token := Some tok, tokenExp := getTokenExpiryTime jwt_exp tok\<rparr>"

record pool =
  identities :: "identity list"
  currentIndex :: nat
  initialized :: bool

definition new_pool :: pool where
  "new_pool = \<lparr>identities = [], currentIndex = 0, initialized = False\<rparr>"

text \<open>\<^verbatim>\<open>getAvailableIdentity\<close>: the selected identity (\<open>None\<close> for null) and the pool with
  its cursor as the call leaves it.\<close>

definition getAvailableIdentity ::
  "(string \<Rightarrow> int option) \<Rightarrow> int \<Rightarrow> pool \<Rightarrow> identity option \<times> pool" where
  "getAvailableIdentity jwt_exp now p =
     (if length (identities p) = 0 then (None, p)
      else
        let availableIdentities = filter (isAvailable jwt_exp now) (identities p)
        in if length availableIdentities = 0 then
             (let allIdentities = filter (\<lambda>i. truthy_token (token i)) (identities p)
              in if length allIdentities = 0 then (None, p)
                 else (Some (allIdentities ! (currentIndex p mod length allIdentities)), p))
           else
             (Some (availableIdentities ! (currentIndex p mod length availableIdentities)),
              p\<lparr>currentIndex := (currentIndex p + 1) mod length availableIdentities\<rparr>))"

section \<open>Strings\<close>

text \<open>
  Text is a list of characters, one per unit that JavaScript's \<^verbatim>\<open>length\<close> counts.
  \<^verbatim>\<open>s.split(sep)\<close> for a non-empty separator: the pieces between the non-overlapping
  occurrences of \<open>sep\<close>, found from the left.
\<close>

function split_acc :: "string \<Rightarrow> string \<Rightarrow> string \<Rightarrow> string list" where
  "split_acc sep acc s =
     (if s = [] then [rev acc]
      else if sep \<noteq> [] \<and> take (length sep) s = sep
        then rev acc # split_acc sep [] (drop (length sep) s)
      else split_acc sep (hd s # acc) (tl s))"
  by pat_completeness auto
termination
  by (relation "measure (\<lambda>(sep, acc, s). length s)") (auto simp: neq_Nil_conv)

definition split :: "string \<Rightarrow> string \<Rightarrow> string list" where
  "split sep s = split_acc sep [] s"

section \<open>Aspect ratio of a requested image size (main module)\<close>

text \<open>
  \<^verbatim>\<open>Number(s)\<close> is modelled on the strings of decimal digits whose value is at most
  \<open>2^53 - 1\<close>, where JavaScript's floating-point numbers are the integers themselves
  (the empty string is 0). On every other string (a sign, a fraction, an exponent,
  blanks, a non-numeral, a larger value) the model gives \<open>None\<close>, meaning that it says
  nothing about the result there.
\<close>

definition digit_value :: "char \<Rightarrow> nat option" where
  "digit_value c =
     (let n = (of_char c :: nat) in if 48 \<le> n \<and> n \<le> 57 then Some (n - 48) else None)"

fun decimal_acc :: "nat \<Rightarrow> string \<Rightarrow> nat option" where
  "decimal_acc n [] = Some n"
| "decimal_acc n (c # cs) =
     (case digit_value c of None \<Rightarrow> None | Some d \<Rightarrow> decimal_acc (10 * n + d) cs)"

definition MAX_SAFE_INTEGER :: nat where
  "MAX_SAFE_INTEGER = 2 ^ 53 - 1"

definition Number_dec :: "string \<Rightarrow> nat option" where
  "Number_dec s =
     (case decimal_acc 0 s of
        None \<Rightarrow> None
      | Some n \<Rightarrow> if n \<le> MAX_SAFE_INTEGER then Some n else None)"

text \<open>The local \<^verbatim>\<open>gcd\<close> of \<^verbatim>\<open>calculateAspectRatio\<close>.\<close>

function gcd_js :: "nat \<Rightarrow> nat \<Rightarrow> nat" where
  "gcd_js a b = (if b = 0 then a else gcd_js b (a mod b))"
  by pat_completeness auto
termination
  by (relation "measure (\<lambda>(a, b). b)") auto

text \<open>The decimal numeral of an integer, as a template literal prints it.\<close>

function digits_of :: "nat \<Rightarrow> string" where
  "digits_of n =
     (if n < 10 then [''0123456789'' ! n]
      else digits_of (n div 10) @ [''0123456789'' ! (n mod 10)])"
  by pat_completeness auto
termination
  by (relation "measure id") auto

definition calculateAspectRatio :: "string \<Rightarrow> string option" where
  "calculateAspectRatio sz =
     (case split ''x'' sz of
        w # h # _ \<Rightarrow>
          (case Number_dec w of
             None \<Rightarrow> None
           | Some a \<Rightarrow>
               if a = 0 then Some ''1:1''
               else (case Number_dec h of
                       None \<Rightarrow> None
                     | Some b \<Rightarrow>
                         if b = 0 then Some ''1:1''
                         else let d = gcd_js a b
                              in Some (digits_of (a div d) @ '':'' @ digits_of (b div d))))
      | _ \<Rightarrow> Some ''1:1'')"

text \<open>The table of the text-to-image branch of \<^verbatim>\<open>transformOpenAIRequestToQwen\<close>.\<close>

definition sizeMap :: "(string \<times> string) list" where
  "sizeMap =
     [(''256x256'', ''1:1''), (''512x512'', ''1:1''), (''1024x1024'', ''1:1''),
      (''1792x1024'', ''16:9''), (''1024x1792'', ''9:16''), (''2048x2048'', ''1:1''),
      (''1152x768'', ''3:2''), (''768x1152'', ''2:3'')]"

text \<open>
  \<^verbatim>\<open>sizeMap[openAISize] || calculateAspectRatio(openAISize)\<close>, with \<^verbatim>\<open>openAISize\<close> the
  requested size or \<open>1024x1024\<close>. The table is an object literal, so a size that names a
  member of \<^verbatim>\<open>Object.prototype\<close> reads that member, which is no ratio string: the model
  gives \<open>None\<close> there.
\<close>

definition object_prototype_names :: "string list" where
  "object_prototype_names =
     [''constructor'', ''__proto__'', ''hasOwnProperty'', ''isPrototypeOf'',
      ''propertyIsEnumerable'', ''toLocaleString'', ''toString'', ''valueOf'',
      ''__defineGetter__'', ''__defineSetter__'', ''__lookupGetter__'', ''__lookupSetter__'']"

definition qwenSize :: "string option \<Rightarrow> string option" where
  "qwenSize sz =
     (let openAISize = (case sz of None \<Rightarrow> ''1024x1024''
                        | Some s \<Rightarrow> if s = [] then ''1024x1024'' else s)
      in case map_of sizeMap openAISize of
           Some r \<Rightarrow> Some r
         | None \<Rightarrow> if openAISize \<in> set object_prototype_names then None
                   else calculateAspectRatio openAISize)"

section \<open>Stream transformer (transformers module)\<close>

subsection \<open>JavaScript values\<close>

text \<open>
  A decoded JSON value. \<open>None\<close> of type \<open>json option\<close> is \<^verbatim>\<open>undefined\<close>. An object is the
  list of its members, read with \<open>map_of\<close>.
\<close>

datatype json =
  JNull
  | JBool bool
  | JNum real
  | JStr string
  | JArr "json list"
  | JObj "(string \<times> json) list"

text \<open>
  Two built-ins of the language are parameters of the model: \<^verbatim>\<open>JSON.parse\<close> (\<open>None\<close> when
  it throws a SyntaxError) and the conversion to a number of a string, an array or an
  object (\<open>None\<close> for NaN), which the comparison \<^verbatim>\<open>q.choices.length > 0\<close> applies when
  \<^verbatim>\<open>length\<close> is such a value.
\<close>

record js_env =
  JSON_parse :: "string \<Rightarrow> json option"
  ToNumber :: "json \<Rightarrow> real option"

fun truthy :: "json option \<Rightarrow> bool" where
  "truthy None = False"
| "truthy (Some JNull) = False"
| "truthy (Some (JBool b)) = b"
| "truthy (Some (JNum n)) = (n \<noteq> 0)"
| "truthy (Some (JStr s)) = (s \<noteq> [])"
| "truthy (Some (JArr xs)) = True"
| "truthy (Some (JObj kvs)) = True"

text \<open>
  Reading a member of a value that is neither null nor undefined, for the member names
  the transformer uses (none of them is inherited from a prototype, apart from
  \<^verbatim>\<open>length\<close> and the index \<^verbatim>\<open>0\<close> of arrays and strings).
\<close>

fun get_member :: "json \<Rightarrow> string \<Rightarrow> json option" where
  "get_member (JObj kvs) k = map_of kvs k"
| "get_member (JArr xs) k =
     (if k = ''length'' then Some (JNum (real (length xs)))
      else if k = ''0'' then (case xs of [] \<Rightarrow> None | x # _ \<Rightarrow> Some x)
      else None)"
| "get_member (JStr s) k =
     (if k = ''length'' then Some (JNum (real (length s)))
      else if k = ''0'' then (case s of [] \<Rightarrow> None | c # _ \<Rightarrow> Some (JStr [c]))
      else None)"
| "get_member v k = None"

text \<open>\<^verbatim>\<open>v?.k\<close>: undefined on null and undefined.\<close>

fun opt_member :: "json option \<Rightarrow> string \<Rightarrow> json option" where
  "opt_member None k = None"
| "opt_member (Some JNull) k = None"
| "opt_member (Some v) k = get_member v k"

text \<open>\<^verbatim>\<open>a || b\<close>.\<close>

definition js_or :: "json option \<Rightarrow> json option \<Rightarrow> json option" where
  "js_or a b = (if truthy a then a else b)"

text \<open>\<^verbatim>\<open>a || b || ... || d\<close> with a last operand \<open>d\<close> that is a defined value.\<close>

fun first_truthy :: "json option list \<Rightarrow> json \<Rightarrow> json" where
  "first_truthy [] d = d"
| "first_truthy (None # vs) d = first_truthy vs d"
| "first_truthy (Some x # vs) d = (if truthy (Some x) then x else first_truthy vs d)"

text \<open>\<^verbatim>\<open>v > 0\<close>.\<close>

fun gt_zero :: "js_env \<Rightarrow> json option \<Rightarrow> bool" where
  "gt_zero env None = False"
| "gt_zero env (Some JNull) = False"
| "gt_zero env (Some (JBool b)) = b"
| "gt_zero env (Some (JNum n)) = (n > 0)"
| "gt_zero env (Some v) = (case ToNumber env v of None \<Rightarrow> False | Some r \<Rightarrow> r > 0)"

subsection \<open>String operations\<close>

definition startsWith :: "string \<Rightarrow> string \<Rightarrow> bool" where
  "startsWith p s = (take (length p) s = p)"

fun includes_str :: "string \<Rightarrow> string \<Rightarrow> bool" where
  "includes_str sub [] = (sub = [])"
| "includes_str sub (c # cs) = (take (length sub) (c # cs) = sub \<or> includes_str sub cs)"

text \<open>White space of \<^verbatim>\<open>trim\<close> and of \<^verbatim>\<open>\s\<close>, among the characters below 256: tab, line
  feed, vertical tab, form feed, carriage return, space, no-break space.\<close>

definition is_space :: "char \<Rightarrow> bool" where
  "is_space c = ((of_char c :: nat) \<in> {9, 10, 11, 12, 13, 32, 160})"

definition trim :: "string \<Rightarrow> string" where
  "trim s = rev (dropWhile is_space (rev (dropWhile is_space s)))"

text \<open>\<^verbatim>\<open>line.replace(/^data:\s?/, '')\<close>.\<close>

definition strip_data_prefix :: "string \<Rightarrow> string" where
  "strip_data_prefix line =
     (if startsWith ''data:'' line then
        (case drop 5 line of
           [] \<Rightarrow> []
         | c # cs \<Rightarrow> if is_space c then cs else c # cs)
      else line)"

subsection \<open>Frames and state\<close>

text \<open>
  What the transformer pushes. \<open>Done\<close> is the text \<^verbatim>\<open>data: [DONE]\n\n\<close>. \<open>Chunk c f\<close> is
  the \<^verbatim>\<open>data:\<close> line of a completion chunk whose delta content is \<open>c\<close> and whose
  \<^verbatim>\<open>finish_reason\<close> is \<^verbatim>\<open>'stop'\<close> when \<open>f\<close> holds and null otherwise. \<open>ErrorChunk m\<close> is the
  chunk built for an upstream failure: its content is \<^verbatim>\<open>Error: \<close> followed by the text
  of \<open>m\<close>, its \<^verbatim>\<open>finish_reason\<close> is \<^verbatim>\<open>'stop'\<close>. The identifier and the creation time of a
  chunk are left out.
\<close>

datatype frame = Done | Chunk json bool | ErrorChunk json

record transformer =
  buffer :: string
  sentImageUrls :: "string set"

definition new_transformer :: transformer where
  "new_transformer = \<lparr>buffer = [], sentImageUrls = {}\<rparr>"

definition MAX_BUFFER_SIZE :: nat where
  "MAX_BUFFER_SIZE = 100000"

subsection \<open>One record\<close>

text \<open>
  The \<^verbatim>\<open>try\<close> block of the loop body ends in one of three ways: the upstream failure
  branch (which pushes its two frames and continues with the next line), normal
  completion, or a TypeError caught by the \<^verbatim>\<open>catch\<close>. The last two carry the set of image
  URLs, \<^verbatim>\<open>content\<close> and \<^verbatim>\<open>isFinished\<close> as they are at that point.
\<close>

datatype try_result =
  UpstreamFailure json
  | Completed "string set" json bool
  | Thrown "string set" json bool

text \<open>\<^verbatim>\<open>if (!sentImageUrls.has(content)) { add; wrap } else { content = '' }\<close>.\<close>

definition dedup_image :: "string set \<Rightarrow> string \<Rightarrow> string set \<times> json" where
  "dedup_image sent url =
     (if url \<notin> sent then (insert url sent, JStr (''![Image]('' @ url @ '')''))
      else (sent, JStr []))"

text \<open>The branch \<^verbatim>\<open>if (delta) { ... }\<close> for a truthy \<open>delta\<close> of the first choice \<open>choice\<close>.\<close>

definition delta_branch :: "string set \<Rightarrow> json \<Rightarrow> json \<Rightarrow> try_result" where
  "delta_branch sent choice delta =
     (let content = first_truthy [get_member delta ''content''] (JStr []);
          isFinished = (get_member delta ''status'' = Some (JStr ''finished'')
                        \<or> get_member choice ''finish_reason'' = Some (JStr ''stop''))
      in if get_member delta ''phase'' = Some (JStr ''image_gen'') then
           (if truthy (Some content) then
              (case content of
                 JStr u \<Rightarrow>
                   if startsWith ''https://'' u
                   then (case dedup_image sent u of (sent', c) \<Rightarrow> Completed sent' c isFinished)
                   else Completed sent content isFinished
               | _ \<Rightarrow> Thrown sent content False)
            else Completed sent content isFinished)
         else if get_member delta ''chat_type'' = Some (JStr ''t2i'')
                 \<or> get_member delta ''chat_type'' = Some (JStr ''image_edit'') then
           (case content of
              JStr u \<Rightarrow>
                if startsWith ''https://'' u
                then (case dedup_image sent u of (sent', c) \<Rightarrow> Completed sent' c isFinished)
                else Completed sent content isFinished
            | _ \<Rightarrow> Completed sent content isFinished)
         else Completed sent content isFinished)"

text \<open>The body of the \<^verbatim>\<open>try\<close> block after \<^verbatim>\<open>JSON.parse\<close> returned \<open>q\<close>.\<close>

definition try_body :: "js_env \<Rightarrow> string set \<Rightarrow> json \<Rightarrow> try_result" where
  "try_body env sent q =
     (if q = JNull then Thrown sent (JStr []) False
      else if get_member q ''success'' = Some (JBool False) then
        UpstreamFailure
          (first_truthy [opt_member (get_member q ''data'') ''details'',
                         opt_member (get_member q ''data'') ''code'']
             (JStr ''Unknown Qwen API error''))
      else if truthy (get_member q ''choices'')
              \<and> gt_zero env (opt_member (get_member q ''choices'') ''length'') then
        (case opt_member (get_member q ''choices'') ''0'' of
           None \<Rightarrow> Thrown sent (JStr []) False
         | Some JNull \<Rightarrow> Thrown sent (JStr []) False
         | Some choice \<Rightarrow>
             (case js_or (get_member choice ''delta'') (get_member choice ''message'') of
                None \<Rightarrow> Completed sent (JStr []) False
              | Some delta \<Rightarrow>
                  if truthy (Some delta) then delta_branch sent choice delta
                  else Completed sent (JStr []) False))
      else if truthy (get_member q ''content'') then
        (let content = first_truthy [get_member q ''content''] (JStr []);
             isFinished = (get_member q ''status'' = Some (JStr ''finished'')
                           \<or> get_member q ''finish_reason'' = Some (JStr ''stop''))
         in case content of
              JStr u \<Rightarrow>
                if startsWith ''https://'' u \<and> includes_str ''cdn.qwenlm.ai'' u
                then (case dedup_image sent u of (sent', c) \<Rightarrow> Completed sent' c isFinished)
                else Completed sent content isFinished
            | _ \<Rightarrow> Completed sent content isFinished)
      else if truthy (js_or (get_member q ''result'') (get_member q ''data'')) then
        (case js_or (get_member q ''result'') (get_member q ''data'') of
           Some (JStr s) \<Rightarrow> Completed sent (JStr s) False
         | Some d \<Rightarrow>
             if truthy (get_member d ''content'')
             then Completed sent (first_truthy [get_member d ''content''] (JStr [])) False
             else Completed sent (JStr []) False
         | None \<Rightarrow> Completed sent (JStr []) False)
      else Completed sent (JStr []) False)"

text \<open>\<^verbatim>\<open>if (content || isFinished) this.push(...)\<close>.\<close>

definition push_chunk :: "json \<Rightarrow> bool \<Rightarrow> frame list" where
  "push_chunk content isFinished =
     (if truthy (Some content) \<or> isFinished then [Chunk content isFinished] else [])"

text \<open>The loop body from \<^verbatim>\<open>let content = ''\<close> on, for a non-empty \<open>dataStr\<close> other than
  \<^verbatim>\<open>[DONE]\<close>: the new URL set and the frames pushed.\<close>

definition process_record :: "js_env \<Rightarrow> string set \<Rightarrow> string \<Rightarrow> string set \<times> frame list" where
  "process_record env sent dataStr =
     (case JSON_parse env dataStr of
        None \<Rightarrow>
          (sent, push_chunk (if \<not> startsWith ''{'' dataStr then JStr dataStr else JStr []) False)
      | Some q \<Rightarrow>
          (case try_body env sent q of
             UpstreamFailure m \<Rightarrow> (sent, [ErrorChunk m, Done])
           | Completed sent' content isFinished \<Rightarrow> (sent', push_chunk content isFinished)
           | Thrown sent' content isFinished \<Rightarrow>
               (sent', push_chunk (if \<not> startsWith ''{'' dataStr then JStr dataStr else content)
                         isFinished)))"

text \<open>The whole loop body for one element of \<^verbatim>\<open>lines\<close>.\<close>

definition dataStr_of :: "string \<Rightarrow> string" where
  "dataStr_of line =
     (if startsWith ''data:'' line then trim (strip_data_prefix line) else trim line)"

definition process_line :: "js_env \<Rightarrow> string set \<Rightarrow> string \<Rightarrow> string set \<times> frame list" where
  "process_line env sent line =
     (if line = [] \<or> trim line = [] then (sent, [])
      else
        let dataStr = dataStr_of line
        in if dataStr = [] then (sent, [])
           else if dataStr = ''[DONE]'' then (sent, [Done])
           else process_record env sent dataStr)"

text \<open>\<^verbatim>\<open>for (const line of lines)\<close>.\<close>

fun process_lines :: "js_env \<Rightarrow> string set \<Rightarrow> string list \<Rightarrow> string set \<times> frame list" where
  "process_lines env sent [] = (sent, [])"
| "process_lines env sent (line # rest) =
     (case process_line env sent line of
        (sent1, fs1) \<Rightarrow>
          (case process_lines env sent1 rest of (sent2, fs2) \<Rightarrow> (sent2, fs1 @ fs2)))"

subsection \<open>One chunk\<close>

text \<open>The splitting of the buffer into complete lines and the part kept for the next
  chunk.\<close>

definition split_buffer :: "string \<Rightarrow> string list \<times> string" where
  "split_buffer buf =
     (if includes_str [CHR 10, CHR 10] buf then
        (let lines = split [CHR 10, CHR 10] buf in (butlast lines, last lines))
      else if includes_str [CHR 10] buf then
        (let lines = split [CHR 10] buf; lastLine = last lines
         in if lastLine \<noteq> [] \<and> \<not> startsWith ''data:'' lastLine
            then (butlast lines, lastLine)
            else (lines, []))
      else ([], buf))"

text \<open>\<^verbatim>\<open>transform(chunk, _enc, callback)\<close>: the state after the call and the frames pushed
  during it. \<open>chunk\<close> is the decoded text of the chunk.\<close>

definition transform :: "js_env \<Rightarrow> transformer \<Rightarrow> string \<Rightarrow> transformer \<times> frame list" where
  "transform env st chunk =
     (let buf = buffer st @ chunk
      in if length buf > MAX_BUFFER_SIZE then (st\<lparr>buffer := []\<rparr>, [])
         else if includes_str ''[DONE]'' buf then (st\<lparr>buffer := []\<rparr>, [Done])
         else
           (case split_buffer buf of
              (lines, rest) \<Rightarrow>
                (case process_lines env (sentImageUrls st) lines of
                   (sent, fs) \<Rightarrow> (\<lparr>buffer = rest, sentImageUrls = sent\<rparr>, fs))))"

text \<open>The chunks of one upstream stream, in order.\<close>

fun transform_all :: "js_env \<Rightarrow> transformer \<Rightarrow> string list \<Rightarrow> transformer \<times> frame list" where
  "transform_all env st [] = (st, [])"
| "transform_all env st (chunk # chunks) =
     (case transform env st chunk of
        (st1, fs1) \<Rightarrow>
          (case transform_all env st1 chunks of (st2, fs2) \<Rightarrow> (st2, fs1 @ fs2)))"


subsection \<open>Chunks as bytes\<close>

text \<open>
  \<^verbatim>\<open>chunk.toString('utf-8')\<close>, the first statement of \<^verbatim>\<open>transform\<close>, for the byte
  sequences whose characters lie below U+0100: a byte below 128 is the character
  itself, and a lead byte \<open>0xC2\<close> or \<open>0xC3\<close> with one continuation byte is one character.
  The result is \<open>None\<close> on every other input (a character from U+0100 on, or an
  ill-formed sequence, which JavaScript decodes to U+FFFD): the characters of the model
  end at U+00FF.
\<close>

fun decode_utf8 :: "string \<Rightarrow> string option" where
  "decode_utf8 [] = Some []"
| "decode_utf8 [b] = (if (of_char b :: nat) < 128 then Some [b] else None)"
| "decode_utf8 (b # c # cs) =
     (if (of_char b :: nat) < 128 then map_option ((#) b) (decode_utf8 (c # cs))
      else if (of_char b :: nat) = 194 \<and> 128 \<le> (of_char c :: nat) \<and> (of_char c :: nat) < 192
        then map_option ((#) c) (decode_utf8 cs)
      else if (of_char b :: nat) = 195 \<and> 128 \<le> (of_char c :: nat) \<and> (of_char c :: nat) < 192
        then map_option ((#) (char_of ((of_char c :: nat) + 64))) (decode_utf8 cs)
      else None)"

text \<open>\<^verbatim>\<open>transform\<close> on the bytes of a chunk.\<close>

definition transform_bytes ::
  "js_env \<Rightarrow> transformer \<Rightarrow> string \<Rightarrow> (transformer \<times> frame list) option" where
  "transform_bytes env st bytes = map_option (transform env st) (decode_utf8 bytes)"

subsection \<open>Streams of complete records\<close>




section \<open>Streaming responses (sse module and \<^verbatim>\<open>executeQwenRequest\<close>)\<close>

text \<open>
  What reaches the client on the response: a frame written to it (piped from the
  transformer, or written by the gateway itself) or a keepalive comment line.
\<close>

datatype wire = Data frame | KeepAliveComment

text \<open>
  The identity that a request runs with is an \<^verbatim>\<open>Identity\<close> object taken from the pool,
  or the plain object \<^verbatim>\<open>{ token, cookie, id: 'legacy' }\<close> that the route handler builds
  when the pool gave none. The plain object has no \<^verbatim>\<open>markSuccess\<close> and no
  \<^verbatim>\<open>markFailure\<close> method, so \<^verbatim>\<open>identityPool.markIdentitySuccess\<close> and
  \<^verbatim>\<open>identityPool.markIdentityFailure\<close> throw a TypeError on it.
\<close>

datatype identity_kind = PoolIdentity | LegacyIdentity

text \<open>
  Where the streaming path of \<^verbatim>\<open>executeQwenRequest\<close> stands: waiting for
  \<^verbatim>\<open>http.post\<close>; returned with the callbacks registered and the upstream body piped
  through the transformer into the response; returned from the \<^verbatim>\<open>catch\<close> branch after
  the error was written; or left by an exception thrown inside the \<^verbatim>\<open>catch\<close> branch,
  with no callback registered and the keepalive timer still set.
\<close>

datatype phase = Awaiting | Piping | Failed | Abandoned

text \<open>
  The state of one streamed response: the response object (\<open>written\<close>,
  \<open>writableEnded\<close>), the frames the transformer has pushed and the pipe has not yet
  written (\<open>pending\<close>), the closure of \<^verbatim>\<open>createKeepAlive\<close> (\<open>respondedDone\<close>, and whether
  the interval timer is still set), the transformer and the phase. The state of the
  identity pool is not part of it.
\<close>

record session =
  written :: "wire list"
  pending :: "frame list"
  writableEnded :: bool
  respondedDone :: bool
  keepaliveSet :: bool
  phase :: phase
  trans :: transformer

text \<open>The state after \<^verbatim>\<open>setSseHeaders\<close> and \<^verbatim>\<open>createKeepAlive\<close>.\<close>

definition new_session :: session where
  "new_session =
     \<lparr>written = [], pending = [], writableEnded = False, respondedDone = False,
      keepaliveSet = True, phase = Awaiting, trans = new_transformer\<rparr>"

text \<open>\<^verbatim>\<open>if (!res.writableEnded) res.write(w)\<close>. A write that the pipe makes after the
  response has ended does not reach the client either.\<close>

definition res_write :: "wire \<Rightarrow> session \<Rightarrow> session" where
  "res_write w s = (if writableEnded s then s else s\<lparr>written := written s @ [w]\<rparr>)"

definition res_end :: "session \<Rightarrow> session" where
  "res_end s = (if writableEnded s then s else s\<lparr>writableEnded := True\<rparr>)"

definition safeWriteDone :: "session \<Rightarrow> session" where
  "safeWriteDone s =
     (if respondedDone s then s
      else res_end (res_write (Data Done) (s\<lparr>respondedDone := True\<rparr>)))"

definition cleanup :: "session \<Rightarrow> session" where
  "cleanup s = s\<lparr>keepaliveSet := False, respondedDone := True\<rparr>"

text \<open>The callback of the keepalive interval.\<close>

definition keepalive_tick :: "session \<Rightarrow> session" where
  "keepalive_tick s = (if keepaliveSet s then res_write KeepAliveComment s else s)"

text \<open>
  The \<^verbatim>\<open>catch\<close> branch of the streaming path, entered with the message of the error
  caught. It first calls \<^verbatim>\<open>identityPool.markIdentityFailure\<close>, which throws for the plain
  identity object, so that nothing below it runs. Otherwise the headers have been sent
  (\<^verbatim>\<open>setSseHeaders\<close> flushes them), and the branch writes an error chunk and the terminal
  frame, calls \<^verbatim>\<open>cleanup\<close> and ends the response. These writes are not guarded.
\<close>

definition catch_branch :: "identity_kind \<Rightarrow> string \<Rightarrow> session \<Rightarrow> session" where
  "catch_branch kind msg s =
     (case kind of
        LegacyIdentity \<Rightarrow> s\<lparr>phase := Abandoned\<rparr>
      | PoolIdentity \<Rightarrow>
          (cleanup (s\<lparr>written := written s
                      @ [Data (Chunk (JStr (''Upstream API request failed: '' @ msg)) True),
                         Data Done]\<rparr>))
            \<lparr>writableEnded := True, phase := Failed\<rparr>)"

text \<open>
  What happens to a streamed response, as events. \<open>DispatchRejected m\<close>: \<^verbatim>\<open>http.post\<close>
  throws an error with message \<open>m\<close>. \<open>DispatchResponded n\<close>: it returns a response with
  status \<open>n\<close>. The other events are the callbacks registered once the upstream response
  is accepted; each runs to completion before the next one starts. \<open>UpstreamData\<close> is
  one chunk (its decoded text) reaching the transformer, which pushes its frames;
  \<open>PipeWrite\<close> is the pipe writing the oldest pushed frame to the response.
\<close>

datatype event =
  DispatchRejected string
  | DispatchResponded nat
  | UpstreamData string
  | PipeWrite
  | UpstreamEnd
  | UpstreamClose
  | UpstreamError
  | TransformerEnd
  | RequestClose
  | ResponseClose
  | ResponseFinish
  | KeepAliveTick

text \<open>The \<^verbatim>\<open>try\<close> block after \<^verbatim>\<open>http.post\<close> returned with the given status: a status of
  400 or more marks the identity as failed and throws; otherwise the identity is
  marked successful and the callbacks and the pipe are set up.\<close>

definition upstream_responded :: "identity_kind \<Rightarrow> nat \<Rightarrow> session \<Rightarrow> session" where
  "upstream_responded kind code s =
     (if code \<ge> 400 then
        (case kind of
           LegacyIdentity \<Rightarrow> catch_branch kind ''identity.markFailure is not a function'' s
         | PoolIdentity \<Rightarrow>
             catch_branch kind (''Upstream API returned error: '' @ digits_of code) s)
      else
        (case kind of
           LegacyIdentity \<Rightarrow> catch_branch kind ''identity.markSuccess is not a function'' s
         | PoolIdentity \<Rightarrow> s\<lparr>phase := Piping\<rparr>))"

text \<open>The registered callbacks.\<close>

fun piping :: "js_env \<Rightarrow> session \<Rightarrow> event \<Rightarrow> session" where
  "piping env s (UpstreamData chunk) =
     (case transform env (trans s) chunk of
        (t, fs) \<Rightarrow> s\<lparr>trans := t, pending := pending s @ fs\<rparr>)"
| "piping env s PipeWrite =
     (case pending s of
        [] \<Rightarrow> s
      | f # fs \<Rightarrow> res_write (Data f) (s\<lparr>pending := fs\<rparr>))"
| "piping env s UpstreamEnd = safeWriteDone s"
| "piping env s UpstreamClose = safeWriteDone s"
| "piping env s UpstreamError = s"
| "piping env s TransformerEnd = safeWriteDone s"
| "piping env s RequestClose = safeWriteDone s"
| "piping env s ResponseClose = cleanup s"
| "piping env s ResponseFinish = cleanup s"
| "piping env s KeepAliveTick = keepalive_tick s"
| "piping env s (DispatchRejected msg) = s"
| "piping env s (DispatchResponded code) = s"

text \<open>One event. Outside the piping phase no callback is registered, and only the
  keepalive timer and the outcome of \<^verbatim>\<open>http.post\<close> have an effect.\<close>

definition handle :: "js_env \<Rightarrow> identity_kind \<Rightarrow> session \<Rightarrow> event \<Rightarrow> session" where
  "handle env kind s ev =
     (case phase s of
        Piping \<Rightarrow> piping env s ev
      | Awaiting \<Rightarrow>
          (case ev of
             DispatchRejected msg \<Rightarrow> catch_branch kind msg s
           | DispatchResponded code \<Rightarrow> upstream_responded kind code s
           | KeepAliveTick \<Rightarrow> keepalive_tick s
           | _ \<Rightarrow> s)
      | _ \<Rightarrow> (case ev of KeepAliveTick \<Rightarrow> keepalive_tick s | _ \<Rightarrow> s))"

definition run_events :: "js_env \<Rightarrow> identity_kind \<Rightarrow> session \<Rightarrow> event list \<Rightarrow> session" where
  "run_events env kind s evs = foldl (handle env kind) s evs"

text \<open>The events whose callback calls \<^verbatim>\<open>safeWriteDone\<close>, those whose callback calls
  \<^verbatim>\<open>cleanup\<close>, and the two outcomes of \<^verbatim>\<open>http.post\<close>.\<close>

fun ending_event :: "event \<Rightarrow> bool" where
  "ending_event UpstreamEnd = True"
| "ending_event UpstreamClose = True"
| "ending_event TransformerEnd = True"
| "ending_event RequestClose = True"
| "ending_event ev = False"

fun cleanup_event :: "event \<Rightarrow> bool" where
  "cleanup_event ResponseClose = True"
| "cleanup_event ResponseFinish = True"
| "cleanup_event ev = False"

fun dispatch_event :: "event \<Rightarrow> bool" where
  "dispatch_event (DispatchRejected msg) = True"
| "dispatch_event (DispatchResponded code) = True"
| "dispatch_event ev = False"

text \<open>The chunks among a list of events, and the terminal frames among a list of
  frames.\<close>

fun data_chunks :: "event list \<Rightarrow> string list" where
  "data_chunks [] = []"
| "data_chunks (UpstreamData chunk # evs) = chunk # data_chunks evs"
| "data_chunks (ev # evs) = data_chunks evs"

definition done_frames :: "frame list \<Rightarrow> nat" where
  "done_frames fs = length (filter (\<lambda>f. f = Done) fs)"

text \<open>
  A finished response as the client sees it: an event stream, or the single JSON body
  that the non-streaming path sends with \<^verbatim>\<open>res.json\<close> (identifiers and times are left
  out). With an identity of the pool, once the upstream stream was collected, the body
  is the completion built from the collected content; with the plain identity object \<^verbatim>\<open>markIdentitySuccess\<close> and then
  \<^verbatim>\<open>markIdentityFailure\<close> throw, and the route handler answers with its error body.
\<close>

datatype http_response = EventStream "wire list" | JsonBody json

definition non_streaming_response :: "identity_kind \<Rightarrow> string \<Rightarrow> http_response" where
  "non_streaming_response kind content =
     (case kind of
        PoolIdentity \<Rightarrow>
          JsonBody (JObj
            [(''object'', JStr ''chat.completion''),
             (''model'', JStr ''qwen-proxy''),
             (''choices'',
              JArr [JObj [(''index'', JNum 0),
                          (''message'', JObj [(''role'', JStr ''assistant''),
                                              (''content'', JStr content)]),
                          (''finish_reason'', JStr ''stop'')]])])
      | LegacyIdentity \<Rightarrow>
          JsonBody (JObj
            [(''error'', JStr ''Upstream API request failed''),
             (''details'', JStr ''identity.markFailure is not a function'')]))"

text \<open>The number of terminal frames \<^verbatim>\<open>data: [DONE]\<close> in a response.\<close>

fun sentinel_count :: "http_response \<Rightarrow> nat" where
  "sentinel_count (EventStream ws) = length (filter (\<lambda>w. w = Data Done) ws)"
| "sentinel_count (JsonBody j) = 0"

text \<open>The chunk in which an upstream announces the end of its stream.\<close>

definition done_chunk :: string where
  "done_chunk = ''data: [DONE]'' @ [CHR 10, CHR 10]"

text \<open>While no cleanup callback has run, a response is ended only by
  \<^verbatim>\<open>safeWriteDone\<close> or by the \<^verbatim>\<open>catch\<close> branch, which have then written the terminal
  frame.\<close>

definition open_inv :: "session \<Rightarrow> bool" where
  "open_inv s \<longleftrightarrow>
     (writableEnded s \<longrightarrow> respondedDone s)
     \<and> (respondedDone s \<longrightarrow> Data Done \<in> set (written s) \<and> writableEnded s)"

text \<open>The terminal frames written so far.\<close>

definition written_done :: "session \<Rightarrow> nat" where
  "written_done s = length (filter (\<lambda>w. w = Data Done) (written s))"

text \<open>A response on which nothing has happened yet but keepalive comments.\<close>

definition untouched :: "session \<Rightarrow> bool" where
  "untouched s \<longleftrightarrow>
     phase s = Awaiting \<and> pending s = [] \<and> \<not> writableEnded s \<and> \<not> respondedDone s
     \<and> trans s = new_transformer \<and> filter (\<lambda>w. w \<noteq> KeepAliveComment) (written s) = []"

subsection \<open>Sample records\<close>

text \<open>A decoder for the records used in the closed instances below, with the values
  \<^verbatim>\<open>JSON.parse\<close> gives for them; every other text counts as not decodable. None of
  these records makes the transformer convert a string, an array or an object to a
  number, so the sample conversion is never consulted.\<close>

definition sample_image_url :: string where
  "sample_image_url = ''https://cdn.example/a.png''"

definition sample_parse :: "string \<Rightarrow> json option" where
  "sample_parse s =
     (if s = ''{\"success\":false}'' then Some (JObj [(''success'', JBool False)])
      else if s = ''{\"content\":\"hi\"}'' then Some (JObj [(''content'', JStr ''hi'')])
      else if s = ''{\"choices\":[{\"delta\":{\"phase\":\"image_gen\",\"content\":\"https://cdn.example/a.png\"}}]}''
        then Some (JObj [(''choices'',
               JArr [JObj [(''delta'',
                 JObj [(''phase'', JStr ''image_gen''), (''content'', JStr sample_image_url)])]])])
      else None)"

definition sample_env :: js_env where
  "sample_env = \<lparr>JSON_parse = sample_parse, ToNumber = (\<lambda>v. None)\<rparr>"

definition error_record_line :: string where
  "error_record_line = ''data: {\"success\":false}''"

definition content_record_line :: string where
  "content_record_line = ''data: {\"content\":\"hi\"}''"



section \<open>Sample data\<close>

text \<open>Sample data for the closed instances below: a decoder that knows one token, expiring
  in the year 2100, and an identity holding that token.\<close>

definition sample_jwt_exp :: "string \<Rightarrow> int option" where
  "sample_jwt_exp tok = (if tok = ''tokA'' then Some 4102444800 else None)"

definition sample_identity :: "string \<Rightarrow> identity" where
  "sample_identity n = updateToken sample_jwt_exp ''tokA'' (new_identity n ''cookie'')"

definition sample_now :: int where
  "sample_now = 1700000000000"

text \<open>Five reported failures in a row.\<close>

definition fail5 :: "int \<Rightarrow> identity \<Rightarrow> identity" where
  "fail5 now i =
     markFailure now None (markFailure now None (markFailure now None
       (markFailure now None (markFailure now None i))))"

text \<open>Consecutive selections on one pool, at the given clock readings.\<close>

fun select_seq :: "(string \<Rightarrow> int option) \<Rightarrow> int list \<Rightarrow> pool \<Rightarrow> identity option list \<times> pool" where
  "select_seq jwt_exp [] p = ([], p)"
| "select_seq jwt_exp (t # ts) p =
     (case getAvailableIdentity jwt_exp t p of
        (r, p1) \<Rightarrow> (case select_seq jwt_exp ts p1 of (rs, p2) \<Rightarrow> (r # rs, p2)))"

definition sample_pool :: pool where
  "sample_pool =
     \<lparr>identities = [sample_identity ''identity-1'', sample_identity ''identity-2''],
      currentIndex = 0, initialized = True\<rparr>"

text \<open>The same pool after five failures were reported on each identity.\<close>

definition sample_pool_down :: pool where
  "sample_pool_down =
     \<lparr>identities = [fail5 sample_now (sample_identity ''identity-1''),
                     fail5 sample_now (sample_identity ''identity-2'')],
      currentIndex = 1, initialized = True\<rparr>"

text \<open>Five reported successes in a row.\<close>

definition succeed5 :: "(string \<Rightarrow> int option) \<Rightarrow> int \<Rightarrow> identity \<Rightarrow> identity" where
  "succeed5 jwt_exp now i =
     markSuccess jwt_exp now (markSuccess jwt_exp now (markSuccess jwt_exp now
       (markSuccess jwt_exp now (markSuccess jwt_exp now i))))"

declare split_acc.simps [simp del] gcd_js.simps [simp del] digits_of.simps [simp del]

section \<open>Failure and success accounting\<close>

lemma markFailure_failCount: "failCount (markFailure now err i) = failCount i + 1"
  by (simp add: markFailure_def Let_def)

lemma markSuccess_failCount:
  "failCount (markSuccess jwt_exp now i) = (if failCount i > 0 then failCount i - 1 else failCount i)"
  by (simp add: markSuccess_def Let_def)

lemma updateToken_failCount: "failCount (updateToken jwt_exp tok i) = failCount i"
  by (simp add: updateToken_def)

lemma getAvailableIdentity_identities:
  "identities (snd (getAvailableIdentity jwt_exp now p)) = identities p"
  by (simp add: getAvailableIdentity_def Let_def)

lemma isAvailable_failCount_update:
  "isAvailable jwt_exp now (i\<lparr>failCount := n\<rparr>) = isAvailable jwt_exp now i"
  by (simp add: isAvailable_def)

lemma markFailure_status:
  "status (markFailure now err i) =
     (if failCount i + 1 \<ge> 5 then DOWN else if failCount i + 1 \<ge> 3 then DEGRADED else status i)"
  by (simp add: markFailure_def Let_def)

lemma markFailure_nextRetryAt:
  "nextRetryAt (markFailure now err i) =
     (if failCount i + 1 \<ge> 5 then Some (now + 300000)
      else if failCount i + 1 \<ge> 3 then Some (now + 120000) else nextRetryAt i)"
  by (simp add: markFailure_def Let_def)

lemma markSuccess_status:
  "status (markSuccess jwt_exp now i) =
     (if status i \<noteq> HEALTHY \<and> isAvailable jwt_exp now i then HEALTHY else status i)"
  by (simp add: markSuccess_def Let_def isAvailable_failCount_update)

lemma updateToken_status: "status (updateToken jwt_exp tok i) = status i"
  by (simp add: updateToken_def)

lemma isAvailable_DOWN: "status i = DOWN \<Longrightarrow> \<not> isAvailable jwt_exp now i"
  by (simp add: isAvailable_def)

text \<open>
  C3. Each call of \<^verbatim>\<open>markFailure\<close> (reportFailure) raises \<open>failCount\<close> by exactly one.
  The two thresholds are tiers of one test, the higher one first: a resulting count of
  at least 5 sets the status to Down with \<open>nextRetryAt = now + 5 min\<close>; a resulting count of
  at least 3 (and below 5) sets it to Degraded with \<open>nextRetryAt = now + 2 min\<close>. The
  transition does not touch the counter. Of the operations on an identity, only
  \<^verbatim>\<open>markSuccess\<close> lowers the counter (by one, never below zero); \<^verbatim>\<open>updateToken\<close> and
  selection leave it as it is.
\<close>

theorem markFailure_thresholds:
  "failCount (markFailure now err i) = failCount i + 1
   \<and> (3 \<le> failCount i + 1 \<and> failCount i + 1 < 5 \<longrightarrow>
        status (markFailure now err i) = DEGRADED
        \<and> nextRetryAt (markFailure now err i) = Some (now + 2 * 60 * 1000))
   \<and> (5 \<le> failCount i + 1 \<longrightarrow>
        status (markFailure now err i) = DOWN
        \<and> nextRetryAt (markFailure now err i) = Some (now + 5 * 60 * 1000))
   \<and> failCount (markSuccess jwt_exp now i) =
        (if failCount i > 0 then max 0 (failCount i - 1) else failCount i)
   \<and> failCount (updateToken jwt_exp tok i) = failCount i
   \<and> map failCount (identities (snd (getAvailableIdentity jwt_exp now p)))
        = map failCount (identities p)"
  by (simp add: markFailure_failCount markFailure_status markFailure_nextRetryAt
      markSuccess_failCount updateToken_failCount getAvailableIdentity_identities)

theorem markFailure_thresholds_witness:
  "failCount (markFailure sample_now None ((sample_identity ''identity-1'')\<lparr>failCount := 2\<rparr>)) = 3
   \<and> status (markFailure sample_now None ((sample_identity ''identity-1'')\<lparr>failCount := 2\<rparr>)) = DEGRADED
   \<and> nextRetryAt (markFailure sample_now None ((sample_identity ''identity-1'')\<lparr>failCount := 2\<rparr>))
       = Some 1700000120000
   \<and> failCount (markFailure sample_now None ((sample_identity ''identity-1'')\<lparr>failCount := 4\<rparr>)) = 5
   \<and> status (markFailure sample_now None ((sample_identity ''identity-1'')\<lparr>failCount := 4\<rparr>)) = DOWN
   \<and> nextRetryAt (markFailure sample_now None ((sample_identity ''identity-1'')\<lparr>failCount := 4\<rparr>))
       = Some 1700000300000"
  using markFailure_thresholds [of sample_now None "(sample_identity ''identity-1'')\<lparr>failCount := 2\<rparr>"]
    markFailure_thresholds [of sample_now None "(sample_identity ''identity-1'')\<lparr>failCount := 4\<rparr>"]
  by (simp add: sample_now_def)

section \<open>Selection\<close>

lemma isAvailable_iff:
  "isAvailable jwt_exp now i \<longleftrightarrow>
     status i \<noteq> DOWN
     \<and> (\<forall>t. nextRetryAt i = Some t \<longrightarrow> t = 0 \<or> t \<le> now)
     \<and> (\<exists>tok. token i = Some tok \<and> tok \<noteq> [] \<and> \<not> isTokenExpired jwt_exp now tok)"
  by (auto simp: isAvailable_def split: option.splits)

lemma getAvailableIdentity_available:
  assumes "filter (isAvailable jwt_exp now) (identities p) \<noteq> []"
  shows "getAvailableIdentity jwt_exp now p =
     (Some (filter (isAvailable jwt_exp now) (identities p)
              ! (currentIndex p mod length (filter (isAvailable jwt_exp now) (identities p)))),
      p\<lparr>currentIndex :=
          (currentIndex p + 1) mod length (filter (isAvailable jwt_exp now) (identities p))\<rparr>)"
proof -
  from assms have "identities p \<noteq> []" by auto
  with assms show ?thesis by (simp add: getAvailableIdentity_def Let_def)
qed

lemma getAvailableIdentity_fallback:
  assumes "filter (isAvailable jwt_exp now) (identities p) = []"
    and "filter (\<lambda>i. truthy_token (token i)) (identities p) \<noteq> []"
  shows "getAvailableIdentity jwt_exp now p =
     (Some (filter (\<lambda>i. truthy_token (token i)) (identities p)
              ! (currentIndex p mod length (filter (\<lambda>i. truthy_token (token i)) (identities p)))),
      p)"
proof -
  from assms(2) have "identities p \<noteq> []" by auto
  with assms show ?thesis by (simp add: getAvailableIdentity_def Let_def)
qed

lemma isAvailable_truthy_token: "isAvailable jwt_exp now i \<Longrightarrow> truthy_token (token i)"
  by (auto simp: isAvailable_def truthy_token_def split: option.splits if_splits)

lemma getAvailableIdentity_None_iff:
  "fst (getAvailableIdentity jwt_exp now p) = None \<longleftrightarrow>
     (\<forall>i \<in> set (identities p). \<not> truthy_token (token i))"
proof (cases "filter (isAvailable jwt_exp now) (identities p) = []")
  case av: True
  show ?thesis
  proof (cases "filter (\<lambda>i. truthy_token (token i)) (identities p) = []")
    case True
    then have "\<forall>i \<in> set (identities p). \<not> truthy_token (token i)"
      by (simp add: filter_empty_conv)
    moreover from av True have "fst (getAvailableIdentity jwt_exp now p) = None"
      by (simp add: getAvailableIdentity_def Let_def)
    ultimately show ?thesis by simp
  next
    case False
    then have "\<exists>i \<in> set (identities p). truthy_token (token i)"
      by (simp add: filter_empty_conv)
    moreover from getAvailableIdentity_fallback [OF av False]
    have "fst (getAvailableIdentity jwt_exp now p) \<noteq> None" by simp
    ultimately show ?thesis by blast
  qed
next
  case False
  then obtain i where "i \<in> set (identities p)" "isAvailable jwt_exp now i"
    by (auto simp: filter_empty_conv)
  then have "\<exists>i \<in> set (identities p). truthy_token (token i)"
    using isAvailable_truthy_token by blast
  moreover from getAvailableIdentity_available [OF False]
  have "fst (getAvailableIdentity jwt_exp now p) \<noteq> None" by simp
  ultimately show ?thesis by blast
qed

lemma token_preserved:
  "token (markFailure now err i) = token i"
  "token (markSuccess jwt_exp now i) = token i"
  by (simp_all add: markFailure_def markSuccess_def Let_def)

text \<open>
  C4. \<^verbatim>\<open>getAvailableIdentity\<close> (selectAvailable) filters the pool by \<^verbatim>\<open>isAvailable\<close>:
  status not Down, \<open>nextRetryAt\<close> not in the future, and a token that is present and
  unexpired. If the filtered list is non-empty it returns its member at
  \<open>currentIndex mod length\<close> and advances the cursor (modulo that length). If it is empty
  the call falls back to the identities that hold a token, whatever their health, and
  returns the member at \<open>currentIndex mod length\<close> of those, leaving the cursor alone.
  The result is null exactly when no identity holds a token; tokens are never taken
  away by \<^verbatim>\<open>markFailure\<close> or \<^verbatim>\<open>markSuccess\<close>, so that is the case exactly when none
  has ever obtained one. (A token is "present" when it is truthy; the pool only ever
  stores non-empty tokens, and then present means non-null.)
\<close>

theorem getAvailableIdentity_selection:
  "(isAvailable jwt_exp now i \<longleftrightarrow>
      status i \<noteq> DOWN
      \<and> (\<forall>t. nextRetryAt i = Some t \<longrightarrow> t = 0 \<or> t \<le> now)
      \<and> (\<exists>tok. token i = Some tok \<and> tok \<noteq> [] \<and> \<not> isTokenExpired jwt_exp now tok))
   \<and> (filter (isAvailable jwt_exp now) (identities p) \<noteq> [] \<longrightarrow>
        getAvailableIdentity jwt_exp now p =
          (Some (filter (isAvailable jwt_exp now) (identities p)
                   ! (currentIndex p mod length (filter (isAvailable jwt_exp now) (identities p)))),
           p\<lparr>currentIndex :=
               (currentIndex p + 1) mod length (filter (isAvailable jwt_exp now) (identities p))\<rparr>))
   \<and> (filter (isAvailable jwt_exp now) (identities p) = []
        \<and> filter (\<lambda>i. truthy_token (token i)) (identities p) \<noteq> [] \<longrightarrow>
        getAvailableIdentity jwt_exp now p =
          (Some (filter (\<lambda>i. truthy_token (token i)) (identities p)
                   ! (currentIndex p mod length (filter (\<lambda>i. truthy_token (token i)) (identities p)))),
           p))
   \<and> (fst (getAvailableIdentity jwt_exp now p) = None \<longleftrightarrow>
        (\<forall>i \<in> set (identities p). \<not> truthy_token (token i)))
   \<and> ((\<forall>i \<in> set (identities p). token i \<noteq> Some []) \<longrightarrow>
        (fst (getAvailableIdentity jwt_exp now p) = None \<longleftrightarrow>
           (\<forall>i \<in> set (identities p). token i = None)))
   \<and> token (markFailure now err i) = token i
   \<and> token (markSuccess jwt_exp now i) = token i"
proof -
  have none_iff: "(\<forall>i \<in> set (identities p). \<not> truthy_token (token i)) \<longleftrightarrow>
      (\<forall>i \<in> set (identities p). token i = None)"
    if "\<forall>i \<in> set (identities p). token i \<noteq> Some []"
  proof -
    have "\<not> truthy_token (token j) \<longleftrightarrow> token j = None" if "j \<in> set (identities p)" for j
      using that \<open>\<forall>i \<in> set (identities p). token i \<noteq> Some []\<close>
      by (cases "token j") (auto simp: truthy_token_def)
    then show ?thesis by blast
  qed
  show ?thesis
    using isAvailable_iff [of jwt_exp now i] getAvailableIdentity_available [of jwt_exp now p]
      getAvailableIdentity_fallback [of jwt_exp now p]
      getAvailableIdentity_None_iff [of jwt_exp now p] none_iff
      token_preserved(1) [of now err i] token_preserved(2) [of jwt_exp now i]
    by presburger
qed

lemma sample_identity_simps:
  "sample_identity n =
     \<lparr>ident = n, cookie = ''cookie'', token = Some ''tokA'', tokenExp = Some 4102444800000,
      status = HEALTHY, failCount = 0, lastUsedAt = None, nextRetryAt = None, lastError = None\<rparr>"
  by (simp add: sample_identity_def updateToken_def new_identity_def getTokenExpiryTime_def
      sample_jwt_exp_def)

lemma sample_fail5_simps:
  "fail5 sample_now (sample_identity n) =
     \<lparr>ident = n, cookie = ''cookie'', token = Some ''tokA'', tokenExp = Some 4102444800000,
      status = DOWN, failCount = 5, lastUsedAt = None, nextRetryAt = Some 1700000300000,
      lastError = None\<rparr>"
  by (simp add: sample_identity_simps fail5_def markFailure_def sample_now_def)

lemma sample_isAvailable: "isAvailable sample_jwt_exp sample_now (sample_identity n)"
  by (simp add: sample_identity_simps isAvailable_def isTokenExpired_def sample_jwt_exp_def
      sample_now_def)

theorem getAvailableIdentity_selection_witness:
  "getAvailableIdentity sample_jwt_exp sample_now sample_pool
     = (Some (sample_identity ''identity-1''), sample_pool\<lparr>currentIndex := 1\<rparr>)
   \<and> getAvailableIdentity sample_jwt_exp sample_now sample_pool_down
     = (Some (fail5 sample_now (sample_identity ''identity-2'')), sample_pool_down)
   \<and> fst (getAvailableIdentity sample_jwt_exp sample_now
         (sample_pool\<lparr>identities := [new_identity ''identity-1'' ''cookie'']\<rparr>)) = None"
proof -
  have a: "filter (isAvailable sample_jwt_exp sample_now) (identities sample_pool)
      = identities sample_pool"
    by (simp add: sample_pool_def sample_isAvailable)
  have b: "filter (isAvailable sample_jwt_exp sample_now) (identities sample_pool_down) = []"
    by (simp add: sample_pool_down_def sample_fail5_simps isAvailable_def)
  have c: "filter (\<lambda>i. truthy_token (token i)) (identities sample_pool_down)
      = identities sample_pool_down"
    by (simp add: sample_pool_down_def sample_fail5_simps truthy_token_def)
  have d: "\<forall>i \<in> set (identities (sample_pool\<lparr>identities := [new_identity ''identity-1'' ''cookie'']\<rparr>)).
      \<not> truthy_token (token i)"
    by (simp add: new_identity_def truthy_token_def)
  from a b c d show ?thesis
    using getAvailableIdentity_selection [of sample_jwt_exp sample_now _ sample_pool]
      getAvailableIdentity_selection [of sample_jwt_exp sample_now _ sample_pool_down]
      getAvailableIdentity_selection [of sample_jwt_exp sample_now _
        "sample_pool\<lparr>identities := [new_identity ''identity-1'' ''cookie'']\<rparr>"]
    by (simp add: sample_pool_def sample_pool_down_def)
qed

section \<open>Round robin\<close>

lemma getAvailableIdentity_two:
  assumes "identities p = [a, b]"
    and "isAvailable jwt_exp t a" and "isAvailable jwt_exp t b"
  shows "getAvailableIdentity jwt_exp t p =
     (Some (if even (currentIndex p) then a else b),
      p\<lparr>currentIndex := (if even (currentIndex p) then 1 else 0)\<rparr>)"
proof -
  have f: "filter (isAvailable jwt_exp t) (identities p) = [a, b]"
    using assms by simp
  then have ne: "filter (isAvailable jwt_exp t) (identities p) \<noteq> []" by simp
  have l: "length [a, b] = 2" by simp
  have m: "currentIndex p mod 2 = (if even (currentIndex p) then 0 else 1)"
    by presburger
  have m': "(currentIndex p + 1) mod 2 = (if even (currentIndex p) then 1 else 0)"
    by presburger
  show ?thesis
    unfolding getAvailableIdentity_available [OF ne] f l m m' by simp
qed

text \<open>
  C8. In a pool of exactly two identities that are both available at each of four
  consecutive \<^verbatim>\<open>getAvailableIdentity\<close> calls, the calls return the two identities in
  strict alternation. The first one returned is the first of the pool when the cursor
  is even, as it is in a new pool (cursor 0): A, B, A, B.
\<close>

theorem round_robin_alternates:
  assumes "identities p = [a, b]"
    and "\<forall>t \<in> set [t1, t2, t3, t4]. isAvailable jwt_exp t a \<and> isAvailable jwt_exp t b"
  shows "fst (select_seq jwt_exp [t1, t2, t3, t4] p) =
     (if even (currentIndex p) then [Some a, Some b, Some a, Some b]
      else [Some b, Some a, Some b, Some a])"
proof -
  have step: "getAvailableIdentity jwt_exp t q =
       (Some (if even (currentIndex q) then a else b),
        q\<lparr>currentIndex := (if even (currentIndex q) then 1 else 0)\<rparr>)"
    if "identities q = [a, b]" "t \<in> set [t1, t2, t3, t4]" for t q
    using that assms(2) getAvailableIdentity_two [of q a b jwt_exp t] by blast
  show ?thesis
    using assms(1) by (simp add: step)
qed

theorem round_robin_alternates_witness:
  "fst (select_seq sample_jwt_exp [sample_now, sample_now + 1, sample_now + 2, sample_now + 3]
        sample_pool)
   = [Some (sample_identity ''identity-1''), Some (sample_identity ''identity-2''),
      Some (sample_identity ''identity-1''), Some (sample_identity ''identity-2'')]"
proof -
  have "\<forall>t \<in> set [sample_now, sample_now + 1, sample_now + 2, sample_now + 3].
      isAvailable sample_jwt_exp t (sample_identity ''identity-1'')
      \<and> isAvailable sample_jwt_exp t (sample_identity ''identity-2'')"
    by (simp add: sample_identity_simps isAvailable_def isTokenExpired_def sample_jwt_exp_def
        sample_now_def)
  from round_robin_alternates [OF _ this, of sample_pool]
  show ?thesis by (simp add: sample_pool_def)
qed

section \<open>The status field\<close>

lemma markSuccess_DOWN_step:
  "status i = DOWN \<Longrightarrow> failCount i > 0 \<Longrightarrow>
   markSuccess jwt_exp now i = i\<lparr>failCount := failCount i - 1, lastUsedAt := Some now\<rparr>"
  by (simp add: markSuccess_def Let_def isAvailable_def)

text \<open>
  C5 as stated fails: \<open>status\<close> is a field of the identity object, assigned in
  \<^verbatim>\<open>markFailure\<close> and \<^verbatim>\<open>markSuccess\<close>, and it is read back as stored. An identity that
  failed five times and then succeeded five times has \<open>failCount = 0\<close> like a new one,
  yet its status is Down while the new one is Healthy.
\<close>

theorem status_diverges_from_failCount:
  "failCount (sample_identity ''identity-1'') = 0
   \<and> failCount (succeed5 sample_jwt_exp sample_now (fail5 sample_now (sample_identity ''identity-1''))) = 0
   \<and> status (sample_identity ''identity-1'') = HEALTHY
   \<and> status (succeed5 sample_jwt_exp sample_now (fail5 sample_now (sample_identity ''identity-1''))) = DOWN"
proof -
  have "succeed5 sample_jwt_exp sample_now (fail5 sample_now (sample_identity ''identity-1''))
      = (fail5 sample_now (sample_identity ''identity-1''))
          \<lparr>failCount := 0, lastUsedAt := Some sample_now\<rparr>"
    by (simp add: succeed5_def markSuccess_DOWN_step sample_fail5_simps)
  then show ?thesis
    by (simp add: sample_fail5_simps) (simp add: sample_identity_simps)
qed

text \<open>
  C5, amended. The status is a stored field. \<^verbatim>\<open>markFailure\<close> overwrites it from the
  new failure count when that count reaches a threshold and keeps the stored value
  below the thresholds; \<^verbatim>\<open>markSuccess\<close> sets it to Healthy when the identity is not
  Healthy and is available, and keeps the stored value otherwise; \<^verbatim>\<open>updateToken\<close>,
  \<^verbatim>\<open>isAvailable\<close> and selection read or keep it without recomputing it.
\<close>

theorem status_is_stored:
  "status (markFailure now err i) =
     (if failCount i + 1 \<ge> 5 then DOWN else if failCount i + 1 \<ge> 3 then DEGRADED else status i)
   \<and> status (markSuccess jwt_exp now i) =
     (if status i \<noteq> HEALTHY \<and> isAvailable jwt_exp now i then HEALTHY else status i)
   \<and> status (updateToken jwt_exp tok i) = status i
   \<and> identities (snd (getAvailableIdentity jwt_exp now p)) = identities p"
  by (simp add: markFailure_status markSuccess_status updateToken_status
      getAvailableIdentity_identities)

theorem status_is_stored_witness:
  "status (markFailure sample_now None (sample_identity ''identity-1'')) = HEALTHY
   \<and> status (markSuccess sample_jwt_exp sample_now (fail5 sample_now (sample_identity ''identity-1'')))
       = DOWN"
proof -
  have a: "status (sample_identity ''identity-1'') = HEALTHY"
    "failCount (sample_identity ''identity-1'') = 0"
    by (simp_all add: sample_identity_simps)
  have b: "status (fail5 sample_now (sample_identity ''identity-1'')) = DOWN"
    by (simp add: sample_fail5_simps)
  from a b isAvailable_DOWN [OF b, of sample_jwt_exp sample_now]
  show ?thesis
    using status_is_stored [of sample_now None "sample_identity ''identity-1''"]
      status_is_stored [where i = "fail5 sample_now (sample_identity ''identity-1'')"
        and jwt_exp = sample_jwt_exp and now = sample_now]
    by simp
qed

section \<open>Down identities\<close>

text \<open>
  C10 as stated fails: a Down identity can become available again. After five
  failures the identity is Down; two successes lower the count to 3 without touching
  the status; the next failure makes the count 4, which is in the Degraded tier, so
  \<^verbatim>\<open>markFailure\<close> stores Degraded with a two-minute pause; once the pause is over
  \<^verbatim>\<open>isAvailable\<close> is true.
\<close>

theorem down_identity_becomes_available:
  "status (fail5 sample_now (sample_identity ''identity-1'')) = DOWN
   \<and> isAvailable sample_jwt_exp (sample_now + 120000)
        (markFailure sample_now None
          (markSuccess sample_jwt_exp sample_now
            (markSuccess sample_jwt_exp sample_now
              (fail5 sample_now (sample_identity ''identity-1'')))))"
proof -
  have s2: "markSuccess sample_jwt_exp sample_now
            (markSuccess sample_jwt_exp sample_now
              (fail5 sample_now (sample_identity ''identity-1'')))
      = (fail5 sample_now (sample_identity ''identity-1''))
          \<lparr>failCount := 3, lastUsedAt := Some sample_now\<rparr>"
    by (simp add: markSuccess_DOWN_step sample_fail5_simps)
  have s3: "markFailure sample_now None
      ((fail5 sample_now (sample_identity ''identity-1''))
          \<lparr>failCount := 3, lastUsedAt := Some sample_now\<rparr>)
      = (fail5 sample_now (sample_identity ''identity-1''))
          \<lparr>failCount := 4, lastUsedAt := Some sample_now, status := DEGRADED,
           nextRetryAt := Some (sample_now + 120000)\<rparr>"
    by (simp add: sample_fail5_simps markFailure_def Let_def)
  have t: "\<not> isTokenExpired sample_jwt_exp (sample_now + 120000) ''tokA''"
    by (simp add: isTokenExpired_def sample_jwt_exp_def sample_now_def)
  have "isAvailable sample_jwt_exp (sample_now + 120000)
      ((fail5 sample_now (sample_identity ''identity-1''))
          \<lparr>failCount := 4, lastUsedAt := Some sample_now, status := DEGRADED,
           nextRetryAt := Some (sample_now + 120000)\<rparr>)"
    using t by (simp add: sample_fail5_simps isAvailable_def)
  then show ?thesis
    unfolding s2 s3 by (simp add: sample_fail5_simps)
qed

lemma getAvailableIdentity_DOWN_fallback:
  assumes "status i = DOWN" and "fst (getAvailableIdentity jwt_exp now p) = Some i"
  shows "filter (isAvailable jwt_exp now) (identities p) = []"
proof (rule ccontr)
  assume ne: "filter (isAvailable jwt_exp now) (identities p) \<noteq> []"
  let ?av = "filter (isAvailable jwt_exp now) (identities p)"
  from ne have "currentIndex p mod length ?av < length ?av" by simp
  then have "?av ! (currentIndex p mod length ?av) \<in> set ?av" by (rule nth_mem)
  moreover from getAvailableIdentity_available [OF ne] assms(2)
  have "?av ! (currentIndex p mod length ?av) = i" by simp
  ultimately have "isAvailable jwt_exp now i" by simp
  with assms(1) show False by (simp add: isAvailable_DOWN)
qed

text \<open>
  C10, amended. While the stored status is Down, \<^verbatim>\<open>isAvailable\<close> is false at every
  time, whatever \<open>nextRetryAt\<close> holds, because the Down test comes first; \<^verbatim>\<open>markSuccess\<close>
  and \<^verbatim>\<open>updateToken\<close> leave the status Down; and a selection that returns the identity
  took the fallback path (no identity was available, and the cursor did not move).
  The status leaves Down only in \<^verbatim>\<open>markFailure\<close>, when the count after the increment
  is 3 or 4 (after earlier successes lowered it), which stores Degraded.
\<close>

theorem down_stays_unavailable:
  assumes "status i = DOWN"
  shows "\<not> isAvailable jwt_exp now i
   \<and> status (markSuccess jwt_exp now i) = DOWN
   \<and> status (updateToken jwt_exp tok i) = DOWN
   \<and> (status (markFailure now err i) \<noteq> DOWN \<longleftrightarrow>
        3 \<le> failCount i + 1 \<and> failCount i + 1 < 5)
   \<and> (3 \<le> failCount i + 1 \<and> failCount i + 1 < 5 \<longrightarrow>
        status (markFailure now err i) = DEGRADED)
   \<and> (fst (getAvailableIdentity jwt_exp now p) = Some i \<longrightarrow>
        filter (isAvailable jwt_exp now) (identities p) = []
        \<and> snd (getAvailableIdentity jwt_exp now p) = p)"
proof -
  have sel: "filter (isAvailable jwt_exp now) (identities p) = []
      \<and> snd (getAvailableIdentity jwt_exp now p) = p"
    if r: "fst (getAvailableIdentity jwt_exp now p) = Some i"
  proof -
    from getAvailableIdentity_DOWN_fallback [OF assms r]
    have e: "filter (isAvailable jwt_exp now) (identities p) = []" .
    then have "snd (getAvailableIdentity jwt_exp now p) = p"
      by (simp add: getAvailableIdentity_def Let_def)
    with e show ?thesis by simp
  qed
  from assms sel show ?thesis
    by (simp add: isAvailable_DOWN markSuccess_status updateToken_status markFailure_status)
qed

theorem down_stays_unavailable_witness:
  "status (fail5 sample_now (sample_identity ''identity-2'')) = DOWN
   \<and> \<not> isAvailable sample_jwt_exp (sample_now + 300000) (fail5 sample_now (sample_identity ''identity-2''))
   \<and> fst (getAvailableIdentity sample_jwt_exp sample_now sample_pool_down)
       = Some (fail5 sample_now (sample_identity ''identity-2''))
   \<and> filter (isAvailable sample_jwt_exp sample_now) (identities sample_pool_down) = []"
proof -
  have d: "status (fail5 sample_now (sample_identity ''identity-2'')) = DOWN"
    by (simp add: sample_fail5_simps)
  have s: "fst (getAvailableIdentity sample_jwt_exp sample_now sample_pool_down)
      = Some (fail5 sample_now (sample_identity ''identity-2''))"
    by (simp add: getAvailableIdentity_def sample_pool_down_def sample_fail5_simps
        isAvailable_def truthy_token_def)
  from down_stays_unavailable [OF d, where jwt_exp = sample_jwt_exp and now = "sample_now + 300000"]
    down_stays_unavailable [OF d, where jwt_exp = sample_jwt_exp and now = sample_now
      and p = sample_pool_down] d s
  show ?thesis by simp
qed

section \<open>Aspect ratio\<close>

lemma gcd_js_gcd: "gcd_js a b = gcd a b"
proof (induction a b rule: gcd_js.induct)
  case (1 a b)
  show ?case
  proof (cases "b = 0")
    case True
    then show ?thesis by (simp add: gcd_js.simps)
  next
    case False
    with 1 have "gcd_js a b = gcd b (a mod b)" by (simp add: gcd_js.simps [of a b])
    also have "\<dots> = gcd a b" by (metis gcd.commute gcd_red_nat)
    finally show ?thesis .
  qed
qed

lemma decimal_acc_digits:
  "decimal_acc n s = Some m \<Longrightarrow> c \<in> set s \<Longrightarrow> digit_value c \<noteq> None"
  by (induction s arbitrary: n) (auto split: option.splits)

lemma Number_dec_digits: "Number_dec s = Some m \<Longrightarrow> c \<in> set s \<Longrightarrow> digit_value c \<noteq> None"
  by (auto simp: Number_dec_def split: option.splits if_splits dest: decimal_acc_digits)

lemma digit_value_x: "digit_value CHR ''x'' = None"
  by (simp add: digit_value_def)

lemma Number_dec_no_x: "Number_dec s = Some m \<Longrightarrow> CHR ''x'' \<notin> set s"
  using Number_dec_digits digit_value_x by blast

lemma split_acc_no_sep:
  "c \<notin> set s \<Longrightarrow> split_acc [c] acc s = [rev acc @ s]"
proof (induction s arbitrary: acc)
  case Nil
  then show ?case by (simp add: split_acc.simps)
next
  case (Cons a s)
  then have "split_acc [c] acc (a # s) = split_acc [c] (a # acc) s"
    by (auto simp: split_acc.simps [of "[c]" acc "a # s"])
  with Cons show ?case by simp
qed

lemma split_acc_first:
  "c \<notin> set s \<Longrightarrow> split_acc [c] acc (s @ c # r) = (rev acc @ s) # split_acc [c] [] r"
proof (induction s arbitrary: acc)
  case Nil
  then show ?case by (simp add: split_acc.simps [of "[c]" acc "c # r"])
next
  case (Cons a s)
  then have "split_acc [c] acc ((a # s) @ c # r) = split_acc [c] (a # acc) (s @ c # r)"
    by (auto simp: split_acc.simps [of "[c]" acc "a # s @ c # r"])
  with Cons show ?case by simp
qed

lemma split_two:
  "CHR ''x'' \<notin> set ws \<Longrightarrow> CHR ''x'' \<notin> set hs \<Longrightarrow> split ''x'' (ws @ ''x'' @ hs) = [ws, hs]"
  by (simp add: split_def split_acc_first split_acc_no_sep)

lemma digits_not_prototype_name:
  assumes "Number_dec ws = Some w" and "0 < w"
  shows "ws @ r \<notin> set object_prototype_names"
proof -
  from assms have "ws \<noteq> []" by (auto simp: Number_dec_def)
  then obtain c cs where ws: "ws = c # cs" by (cases ws) auto
  with assms(1) have "digit_value c \<noteq> None" by (auto dest: Number_dec_digits)
  then have "c \<noteq> CHR ''c''" "c \<noteq> CHR ''_''" "c \<noteq> CHR ''h''" "c \<noteq> CHR ''i''"
    "c \<noteq> CHR ''p''" "c \<noteq> CHR ''t''" "c \<noteq> CHR ''v''"
    by (auto simp: digit_value_def)
  then show ?thesis by (simp add: ws object_prototype_names_def)
qed

lemma calculateAspectRatio_reduced:
  assumes "Number_dec ws = Some w" and "Number_dec hs = Some h" and "0 < w" and "0 < h"
  shows "calculateAspectRatio (ws @ ''x'' @ hs) =
     Some (digits_of (w div gcd w h) @ '':'' @ digits_of (h div gcd w h))"
proof -
  have "split ''x'' (ws @ ''x'' @ hs) = [ws, hs]"
    using assms(1,2) by (intro split_two Number_dec_no_x)
  with assms show ?thesis
    by (simp add: calculateAspectRatio_def gcd_js_gcd Let_def)
qed

text \<open>
  C9. In the text-to-image branch the requested size \<open>1792x1024\<close> is found in the
  lookup table and maps to \<open>16:9\<close>. A size \<open>WxH\<close> that is not a key of the table, with
  \<open>W\<close> and \<open>H\<close> positive decimal integers, maps to the reduced ratio
  \<open>W/gcd(W,H) : H/gcd(W,H)\<close>; the unlisted size \<open>300x200\<close> maps to \<open>3:2\<close>.
\<close>

theorem aspect_ratio_mapping:
  "map_of sizeMap ''1792x1024'' = Some ''16:9''
   \<and> qwenSize (Some ''1792x1024'') = Some ''16:9''
   \<and> (Number_dec ws = Some w \<and> Number_dec hs = Some h \<and> 0 < w \<and> 0 < h
        \<and> map_of sizeMap (ws @ ''x'' @ hs) = None \<longrightarrow>
        qwenSize (Some (ws @ ''x'' @ hs)) =
          Some (digits_of (w div gcd w h) @ '':'' @ digits_of (h div gcd w h)))
   \<and> map_of sizeMap ''300x200'' = None
   \<and> qwenSize (Some ''300x200'') = Some ''3:2''"
proof -
  have a: "map_of sizeMap ''1792x1024'' = Some ''16:9''"
    by (simp add: sizeMap_def)
  then have b: "qwenSize (Some ''1792x1024'') = Some ''16:9''"
    by (simp add: qwenSize_def)
  have c: "qwenSize (Some (ws @ ''x'' @ hs)) =
          Some (digits_of (w div gcd w h) @ '':'' @ digits_of (h div gcd w h))"
    if "Number_dec ws = Some w" "Number_dec hs = Some h" "0 < w" "0 < h"
      "map_of sizeMap (ws @ ''x'' @ hs) = None"
    using that digits_not_prototype_name [of ws w "''x'' @ hs"]
      calculateAspectRatio_reduced [of ws w hs h]
    by (simp add: qwenSize_def)
  have d: "map_of sizeMap ''300x200'' = None"
    by (simp add: sizeMap_def)
  have n: "Number_dec ''300'' = Some 300" "Number_dec ''200'' = Some 200"
    by (simp_all add: Number_dec_def digit_value_def MAX_SAFE_INTEGER_def)
  have g: "gcd (300::nat) 200 = 100"
    by (simp add: gcd_non_0_nat)
  have "calculateAspectRatio (''300'' @ ''x'' @ ''200'') =
      Some (digits_of (300 div gcd 300 200) @ '':'' @ digits_of (200 div gcd 300 200))"
    by (rule calculateAspectRatio_reduced [OF n]) simp_all
  then have "calculateAspectRatio ''300x200'' = Some ''3:2''"
    by (simp add: g digits_of.simps)
  with d have e: "qwenSize (Some ''300x200'') = Some ''3:2''"
    by (simp add: qwenSize_def object_prototype_names_def)
  from a b c d e show ?thesis by blast
qed

theorem aspect_ratio_mapping_witness:
  "qwenSize (Some ''1920x1080'') = Some ''16:9''"
proof -
  have n: "Number_dec ''1920'' = Some 1920" "Number_dec ''1080'' = Some 1080"
    by (simp_all add: Number_dec_def digit_value_def MAX_SAFE_INTEGER_def)
  have m: "map_of sizeMap (''1920'' @ ''x'' @ ''1080'') = None"
    by (simp add: sizeMap_def)
  have g: "gcd (1920::nat) 1080 = 120"
    by (simp add: gcd_non_0_nat)
  from aspect_ratio_mapping [of "''1920''" 1920 "''1080''" 1080] n m
  show ?thesis by (simp add: g digits_of.simps)
qed

section \<open>Stream transformer: buffer overflow\<close>

lemma decode_utf8_ascii: "\<forall>b \<in> set bytes. (of_char b :: nat) < 128 \<Longrightarrow> decode_utf8 bytes = Some bytes"
  by (induction bytes rule: decode_utf8.induct) simp_all

lemma decode_utf8_copyright:
  "decode_utf8 (concat (replicate n [CHR 0xC2, CHR 0xA9])) = Some (replicate n (CHR 0xA9))"
  by (induction n) simp_all

lemma includes_str_replicate:
  "sub \<noteq> [] \<Longrightarrow> hd sub \<noteq> c \<Longrightarrow> \<not> includes_str sub (replicate n c)"
  by (induction n) (auto simp: take_Cons' neq_Nil_conv)

text \<open>
  C7 as stated fails for text that is not ASCII: the cap is compared with the length
  of the decoded text, not with the number of bytes. A chunk of 50001 copyright signs
  is 100002 bytes and 50001 characters; it is kept in the buffer.
\<close>

theorem buffer_over_cap_in_bytes_kept:
  "length (concat (replicate 50001 [CHR 0xC2, CHR 0xA9])) = 100002
   \<and> transform_bytes sample_env new_transformer (concat (replicate 50001 [CHR 0xC2, CHR 0xA9]))
       = Some (\<lparr>buffer = replicate 50001 (CHR 0xA9), sentImageUrls = {}\<rparr>, [])"
proof -
  have l: "length (concat (replicate n [CHR 0xC2, CHR 0xA9])) = 2 * n" for n
    by (induction n) simp_all
  have d: "\<not> includes_str ''[DONE]'' (replicate 50001 (CHR 0xA9))"
    by (rule includes_str_replicate) simp_all
  have n2: "\<not> includes_str [CHR 10, CHR 10] (replicate 50001 (CHR 0xA9))"
    by (rule includes_str_replicate) simp_all
  have n1: "\<not> includes_str [CHR 10] (replicate 50001 (CHR 0xA9))"
    by (rule includes_str_replicate) simp_all
  from n1 n2 have s: "split_buffer (replicate 50001 (CHR 0xA9)) = ([], replicate 50001 (CHR 0xA9))"
    by (simp add: split_buffer_def)
  have "transform sample_env new_transformer (replicate 50001 (CHR 0xA9))
      = (\<lparr>buffer = replicate 50001 (CHR 0xA9), sentImageUrls = {}\<rparr>, [])"
    using d s by (simp add: transform_def new_transformer_def MAX_BUFFER_SIZE_def)
  then show ?thesis
    by (simp add: transform_bytes_def decode_utf8_copyright l)
qed

text \<open>
  C7, amended. When the buffer text, after the decoded chunk was appended, is longer
  than 100000 characters (which for ASCII input is the number of bytes), \<^verbatim>\<open>transform\<close>
  clears the whole buffer and pushes no frame for that chunk, whether or not a record
  delimiter has appeared; the call returns normally, and the chunks that follow are
  processed from the empty buffer, with the set of image URLs as it was.
\<close>

theorem buffer_overflow_discards:
  assumes "length (buffer st @ chunk) > 100000"
  shows "transform env st chunk = (st\<lparr>buffer := []\<rparr>, [])
   \<and> transform_all env st (chunk # chunks) = transform_all env (st\<lparr>buffer := []\<rparr>) chunks
   \<and> (decode_utf8 bytes = Some chunk \<longrightarrow>
        transform_bytes env st bytes = Some (st\<lparr>buffer := []\<rparr>, []))
   \<and> ((\<forall>b \<in> set chunk. (of_char b :: nat) < 128) \<longrightarrow>
        transform_bytes env st chunk = Some (st\<lparr>buffer := []\<rparr>, []))"
proof -
  from assms have t: "transform env st chunk = (st\<lparr>buffer := []\<rparr>, [])"
    by (simp add: transform_def MAX_BUFFER_SIZE_def)
  then show ?thesis
    by (auto simp: transform_bytes_def decode_utf8_ascii split: prod.splits)
qed

theorem buffer_overflow_discards_witness:
  "transform_bytes sample_env new_transformer (replicate 100001 CHR ''a'')
     = Some (new_transformer, [])
   \<and> transform_all sample_env new_transformer [replicate 100001 CHR ''a'', ''[DONE]'']
       = (new_transformer, [Done])"
proof -
  have l: "length (buffer new_transformer @ replicate 100001 CHR ''a'') > 100000"
    by (simp add: new_transformer_def)
  have d: "transform sample_env new_transformer ''[DONE]'' = (new_transformer, [Done])"
    by (simp add: transform_def new_transformer_def MAX_BUFFER_SIZE_def)
  from buffer_overflow_discards [OF l, of sample_env "[''[DONE]'']"] d
  show ?thesis by (simp add: new_transformer_def)
qed

section \<open>Stream transformer: upstream failure records\<close>

lemma transform_lines:
  assumes "\<not> length (buffer st @ chunk) > MAX_BUFFER_SIZE"
    and "\<not> includes_str ''[DONE]'' (buffer st @ chunk)"
    and "split_buffer (buffer st @ chunk) = (lines, rest)"
    and "process_lines env (sentImageUrls st) lines = (sent, fs)"
  shows "transform env st chunk = (\<lparr>buffer = rest, sentImageUrls = sent\<rparr>, fs)"
  using assms by (simp add: transform_def Let_def)

lemma process_record_failure:
  assumes "JSON_parse env dataStr = Some q" and "get_member q ''success'' = Some (JBool False)"
  shows "process_record env sent dataStr =
     (sent, [ErrorChunk (first_truthy [opt_member (get_member q ''data'') ''details'',
                                       opt_member (get_member q ''data'') ''code'']
                           (JStr ''Unknown Qwen API error'')), Done])"
proof -
  from assms(2) have "q \<noteq> JNull" by auto
  with assms show ?thesis by (simp add: process_record_def try_body_def)
qed

lemma dataStr_of_error_record_line: "dataStr_of error_record_line = ''{\"success\":false}''"
  by (simp add: dataStr_of_def error_record_line_def startsWith_def strip_data_prefix_def
      trim_def is_space_def)

lemma dataStr_of_content_record_line: "dataStr_of content_record_line = ''{\"content\":\"hi\"}''"
  by (simp add: dataStr_of_def content_record_line_def startsWith_def strip_data_prefix_def
      trim_def is_space_def)

lemma trim_record_lines:
  "trim error_record_line \<noteq> []" "trim content_record_line \<noteq> []"
  by (simp_all add: error_record_line_def content_record_line_def trim_def is_space_def)

lemma process_content_record_line:
  "process_line sample_env sent content_record_line = (sent, [Chunk (JStr ''hi'') False])"
proof -
  have "process_record sample_env sent ''{\"content\":\"hi\"}'' = (sent, [Chunk (JStr ''hi'') False])"
    by (simp add: process_record_def sample_env_def sample_parse_def try_body_def
        startsWith_def push_chunk_def)
  then show ?thesis
    using trim_record_lines(2)
    by (simp add: process_line_def dataStr_of_content_record_line)
       (simp add: content_record_line_def)
qed

lemma process_error_record_line:
  "process_line sample_env sent error_record_line =
     (sent, [ErrorChunk (JStr ''Unknown Qwen API error''), Done])"
proof -
  have "process_record sample_env sent ''{\"success\":false}'' =
      (sent, [ErrorChunk (JStr ''Unknown Qwen API error''), Done])"
    by (simp add: process_record_def sample_env_def sample_parse_def try_body_def)
  then show ?thesis
    using trim_record_lines(1)
    by (simp add: process_line_def dataStr_of_error_record_line)
       (simp add: error_record_line_def)
qed

text \<open>
  C2 as stated fails: after the failure record the loop goes on with the next line
  (\<^verbatim>\<open>continue\<close>). One chunk that holds a failure record and then a content record yields
  the error chunk, the terminal frame, and then the content frame of the later record.
\<close>

theorem content_frame_after_failure_record:
  "transform sample_env new_transformer
     (error_record_line @ [CHR 10, CHR 10] @ content_record_line @ [CHR 10, CHR 10])
   = (\<lparr>buffer = [], sentImageUrls = {}\<rparr>,
      [ErrorChunk (JStr ''Unknown Qwen API error''), Done, Chunk (JStr ''hi'') False])"
proof (rule transform_lines)
  show "\<not> length (buffer new_transformer
      @ error_record_line @ [CHR 10, CHR 10] @ content_record_line @ [CHR 10, CHR 10])
      > MAX_BUFFER_SIZE"
    by (simp add: new_transformer_def error_record_line_def content_record_line_def
        MAX_BUFFER_SIZE_def)
  show "\<not> includes_str ''[DONE]'' (buffer new_transformer
      @ error_record_line @ [CHR 10, CHR 10] @ content_record_line @ [CHR 10, CHR 10])"
    by (simp add: new_transformer_def error_record_line_def content_record_line_def)
  show "split_buffer (buffer new_transformer
      @ error_record_line @ [CHR 10, CHR 10] @ content_record_line @ [CHR 10, CHR 10])
      = ([error_record_line, content_record_line], [])"
    by (simp add: new_transformer_def split_buffer_def error_record_line_def
        content_record_line_def split_def split_acc.simps)
  show "process_lines sample_env (sentImageUrls new_transformer)
      [error_record_line, content_record_line] =
      ({}, [ErrorChunk (JStr ''Unknown Qwen API error''), Done, Chunk (JStr ''hi'') False])"
    by (simp add: new_transformer_def process_error_record_line process_content_record_line)
qed

text \<open>
  C2, amended. For a record that decodes to an object whose \<^verbatim>\<open>success\<close> member is
  \<^verbatim>\<open>false\<close>, the transformer pushes exactly one error-content chunk followed by one
  terminal frame, leaves its state as it is, and then processes the remaining records
  of the stream as usual: their frames follow the two frames of the failure record.
\<close>

theorem failure_record_frames:
  assumes "line \<noteq> []" and "trim line \<noteq> []"
    and "dataStr_of line \<noteq> []" and "dataStr_of line \<noteq> ''[DONE]''"
    and "JSON_parse env (dataStr_of line) = Some q"
    and "get_member q ''success'' = Some (JBool False)"
  shows "process_line env sent line =
       (sent, [ErrorChunk (first_truthy [opt_member (get_member q ''data'') ''details'',
                                         opt_member (get_member q ''data'') ''code'']
                             (JStr ''Unknown Qwen API error'')), Done])
   \<and> process_lines env sent (line # rest) =
       (fst (process_lines env sent rest),
        [ErrorChunk (first_truthy [opt_member (get_member q ''data'') ''details'',
                                   opt_member (get_member q ''data'') ''code'']
                       (JStr ''Unknown Qwen API error'')), Done]
        @ snd (process_lines env sent rest))"
proof -
  from assms have "process_line env sent line =
       (sent, [ErrorChunk (first_truthy [opt_member (get_member q ''data'') ''details'',
                                         opt_member (get_member q ''data'') ''code'']
                             (JStr ''Unknown Qwen API error'')), Done])"
    by (simp add: process_line_def Let_def process_record_failure)
  then show ?thesis by (simp split: prod.splits)
qed

theorem failure_record_frames_witness:
  "process_lines sample_env {} [error_record_line, content_record_line] =
     ({}, [ErrorChunk (JStr ''Unknown Qwen API error''), Done, Chunk (JStr ''hi'') False])"
proof -
  have a: "error_record_line \<noteq> []" "dataStr_of error_record_line \<noteq> []"
    "dataStr_of error_record_line \<noteq> ''[DONE]''"
    "JSON_parse sample_env (dataStr_of error_record_line) = Some (JObj [(''success'', JBool False)])"
    "get_member (JObj [(''success'', JBool False)]) ''success'' = Some (JBool False)"
    by (simp_all add: dataStr_of_error_record_line sample_env_def sample_parse_def)
       (simp add: error_record_line_def)
  from failure_record_frames [OF a(1) trim_record_lines(1) a(2-5), of "{}" "[content_record_line]"]
  show ?thesis by (simp add: process_content_record_line)
qed

section \<open>Stream transformer: image URLs\<close>




lemma dedup_image_mono: "dedup_image sent u = (sent', c) \<Longrightarrow> sent \<subseteq> sent'"
  by (auto simp: dedup_image_def split: if_splits)








subsection \<open>Chunks of complete records\<close>










subsection \<open>Image records in a stream\<close>







section \<open>The terminal frame of a response\<close>

lemma transform_done_chunk:
  "transform env new_transformer done_chunk = (new_transformer, [Done])"
  by (simp add: transform_def new_transformer_def MAX_BUFFER_SIZE_def done_chunk_def)

lemma run_events_append:
  "run_events env kind s (xs @ ys) = run_events env kind (run_events env kind s xs) ys"
  by (simp add: run_events_def)

lemma run_events_Cons:
  "run_events env kind s (ev # evs) = run_events env kind (handle env kind s ev) evs"
  by (simp add: run_events_def)

lemma run_events_Nil: "run_events env kind s [] = s"
  by (simp add: run_events_def)

text \<open>
  C1 as stated fails. A streamed response whose upstream sends its own \<^verbatim>\<open>[DONE]\<close>
  record and then ends carries two terminal frames: the transformer forwards one, and
  \<^verbatim>\<open>safeWriteDone\<close> writes another when the upstream ends. With the plain identity
  object the same events leave the response without a terminal frame and not ended.
  A non-streaming response is a JSON body and carries none.
\<close>

theorem terminal_frame_twice_or_never:
  "sentinel_count (EventStream (written
      (run_events sample_env PoolIdentity new_session
         [DispatchResponded 200, UpstreamData done_chunk, PipeWrite, UpstreamEnd]))) = 2
   \<and> sentinel_count (EventStream (written
      (run_events sample_env LegacyIdentity new_session
         [DispatchResponded 200, UpstreamData done_chunk, PipeWrite, UpstreamEnd]))) = 0
   \<and> \<not> writableEnded
      (run_events sample_env LegacyIdentity new_session
         [DispatchResponded 200, UpstreamData done_chunk, PipeWrite, UpstreamEnd])
   \<and> sentinel_count (non_streaming_response PoolIdentity ''hello'') = 0"
proof -
  have h1: "handle sample_env PoolIdentity new_session (DispatchResponded 200)
      = new_session\<lparr>phase := Piping\<rparr>"
    by (simp add: handle_def new_session_def upstream_responded_def)
  have h2: "handle sample_env PoolIdentity (new_session\<lparr>phase := Piping\<rparr>) (UpstreamData done_chunk)
      = new_session\<lparr>phase := Piping, pending := [Done]\<rparr>"
    by (simp add: handle_def new_session_def transform_done_chunk)
  have h3: "handle sample_env PoolIdentity (new_session\<lparr>phase := Piping, pending := [Done]\<rparr>) PipeWrite
      = new_session\<lparr>phase := Piping, written := [Data Done]\<rparr>"
    by (simp add: handle_def new_session_def res_write_def)
  have h4: "handle sample_env PoolIdentity (new_session\<lparr>phase := Piping, written := [Data Done]\<rparr>)
        UpstreamEnd
      = new_session\<lparr>phase := Piping, written := [Data Done, Data Done],
                     writableEnded := True, respondedDone := True\<rparr>"
    by (simp add: handle_def new_session_def safeWriteDone_def res_write_def res_end_def)
  have p: "run_events sample_env PoolIdentity new_session
         [DispatchResponded 200, UpstreamData done_chunk, PipeWrite, UpstreamEnd]
      = new_session\<lparr>phase := Piping, written := [Data Done, Data Done],
                     writableEnded := True, respondedDone := True\<rparr>"
    by (simp only: run_events_Cons run_events_Nil h1 h2 h3 h4)
  have l1: "handle sample_env LegacyIdentity new_session (DispatchResponded 200)
      = new_session\<lparr>phase := Abandoned\<rparr>"
    by (simp add: handle_def new_session_def upstream_responded_def catch_branch_def)
  have l2: "handle sample_env LegacyIdentity (new_session\<lparr>phase := Abandoned\<rparr>) ev
      = new_session\<lparr>phase := Abandoned\<rparr>" if "ev \<noteq> KeepAliveTick" for ev
    using that by (cases ev) (simp_all add: handle_def new_session_def)
  have l: "run_events sample_env LegacyIdentity new_session
         [DispatchResponded 200, UpstreamData done_chunk, PipeWrite, UpstreamEnd]
      = new_session\<lparr>phase := Abandoned\<rparr>"
    by (simp add: run_events_Cons run_events_Nil l1 l2)
  show ?thesis
    unfolding p l by (simp add: non_streaming_response_def new_session_def)
qed

subsection \<open>What is written stays written\<close>

lemma res_write_written: "set (written s) \<subseteq> set (written (res_write w s))"
  by (auto simp: res_write_def)

lemma safeWriteDone_written: "set (written s) \<subseteq> set (written (safeWriteDone s))"
  by (auto simp: safeWriteDone_def res_end_def res_write_def)

lemma catch_branch_written: "set (written s) \<subseteq> set (written (catch_branch kind msg s))"
  by (cases kind) (auto simp: catch_branch_def cleanup_def)

lemma piping_written: "set (written s) \<subseteq> set (written (piping env s ev))"
  by (cases ev)
     (auto simp: safeWriteDone_def res_end_def res_write_def cleanup_def keepalive_tick_def
           split: prod.splits list.splits)

lemma handle_written: "set (written s) \<subseteq> set (written (handle env kind s ev))"
proof (cases "phase s")
  case Piping
  then show ?thesis using piping_written [of s env ev] by (simp add: handle_def)
next
  case Awaiting
  then show ?thesis
    using catch_branch_written [of s kind]
    by (cases ev; cases kind)
       (auto simp: handle_def upstream_responded_def keepalive_tick_def res_write_def)
next
  case Failed
  then show ?thesis
    by (cases ev) (auto simp: handle_def keepalive_tick_def res_write_def)
next
  case Abandoned
  then show ?thesis
    by (cases ev) (auto simp: handle_def keepalive_tick_def res_write_def)
qed

lemma piping_writableEnded: "writableEnded s \<Longrightarrow> writableEnded (piping env s ev)"
  by (cases ev)
     (auto simp: safeWriteDone_def res_end_def res_write_def cleanup_def keepalive_tick_def
           split: prod.splits list.splits)

lemma handle_writableEnded: "writableEnded s \<Longrightarrow> writableEnded (handle env kind s ev)"
proof (cases "phase s")
  case Piping
  assume "writableEnded s"
  with Piping show ?thesis using piping_writableEnded [of s env ev] by (simp add: handle_def)
next
  case Awaiting
  assume "writableEnded s"
  with Awaiting show ?thesis
    by (cases ev; cases kind)
       (auto simp: handle_def upstream_responded_def keepalive_tick_def res_write_def
          catch_branch_def cleanup_def)
next
  case Failed
  assume "writableEnded s"
  with Failed show ?thesis
    by (cases ev) (auto simp: handle_def keepalive_tick_def res_write_def)
next
  case Abandoned
  assume "writableEnded s"
  with Abandoned show ?thesis
    by (cases ev) (auto simp: handle_def keepalive_tick_def res_write_def)
qed

lemma run_events_keeps_done:
  "Data Done \<in> set (written s) \<and> writableEnded s \<Longrightarrow>
   Data Done \<in> set (written (run_events env kind s evs))
   \<and> writableEnded (run_events env kind s evs)"
proof (induction evs arbitrary: s)
  case Nil
  then show ?case by (simp add: run_events_Nil)
next
  case (Cons ev evs)
  from Cons.prems handle_written [of s env kind ev] handle_writableEnded [of s env kind ev]
  have "Data Done \<in> set (written (handle env kind s ev))
      \<and> writableEnded (handle env kind s ev)"
    by blast
  then show ?case using Cons.IH by (simp add: run_events_Cons)
qed

subsection \<open>The piping phase\<close>

lemma piping_phase: "phase (piping env s ev) = phase s"
  by (cases ev)
     (auto simp: safeWriteDone_def res_end_def res_write_def cleanup_def keepalive_tick_def
           split: prod.splits list.splits)

lemma handle_Piping: "phase s = Piping \<Longrightarrow> handle env kind s ev = piping env s ev"
  by (simp add: handle_def)

lemma run_events_phase_Piping:
  "phase s = Piping \<Longrightarrow> phase (run_events env kind s evs) = Piping"
proof (induction evs arbitrary: s)
  case Nil
  then show ?case by (simp add: run_events_Nil)
next
  case (Cons ev evs)
  then show ?case by (simp add: run_events_Cons handle_Piping piping_phase)
qed

lemma open_inv_piping:
  assumes "open_inv s" and "\<not> cleanup_event ev"
  shows "open_inv (piping env s ev)"
  using assms
  by (cases ev)
     (auto simp: open_inv_def safeWriteDone_def res_end_def res_write_def keepalive_tick_def
           split: prod.splits list.splits)

lemma open_inv_run:
  "phase s = Piping \<Longrightarrow> open_inv s \<Longrightarrow> \<forall>ev \<in> set evs. \<not> cleanup_event ev \<Longrightarrow>
   open_inv (run_events env kind s evs)"
proof (induction evs arbitrary: s)
  case Nil
  then show ?case by (simp add: run_events_Nil)
next
  case (Cons ev evs)
  from Cons.prems have "open_inv (piping env s ev)" "phase (piping env s ev) = Piping"
    by (simp_all add: open_inv_piping piping_phase)
  with Cons.IH [of "piping env s ev"] Cons.prems show ?case
    by (simp add: run_events_Cons handle_Piping)
qed

lemma ending_event_done:
  assumes "open_inv s" and "ending_event ev"
  shows "Data Done \<in> set (written (piping env s ev)) \<and> writableEnded (piping env s ev)"
  using assms
  by (cases ev) (auto simp: open_inv_def safeWriteDone_def res_end_def res_write_def)

subsection \<open>Counting terminal frames\<close>

lemma done_frames_append: "done_frames (xs @ ys) = done_frames xs + done_frames ys"
  by (simp add: done_frames_def)

lemma piping_count:
  "written_done (piping env s ev) + done_frames (pending (piping env s ev))
     + (if respondedDone (piping env s ev) then 0 else 1)
   \<le> written_done s + done_frames (pending s) + (if respondedDone s then 0 else 1)
     + (case ev of UpstreamData chunk \<Rightarrow> done_frames (snd (transform env (trans s) chunk))
        | _ \<Rightarrow> 0)"
  by (cases ev)
     (auto simp: written_done_def done_frames_def safeWriteDone_def res_end_def res_write_def
        cleanup_def keepalive_tick_def split: prod.splits list.splits)

lemma piping_trans:
  "trans (piping env s ev) =
     (case ev of UpstreamData chunk \<Rightarrow> fst (transform env (trans s) chunk) | _ \<Rightarrow> trans s)"
  by (cases ev)
     (auto simp: safeWriteDone_def res_end_def res_write_def cleanup_def keepalive_tick_def
        split: prod.splits list.splits)

lemma run_events_count:
  "phase s = Piping \<Longrightarrow>
   written_done (run_events env kind s evs) + done_frames (pending (run_events env kind s evs))
     + (if respondedDone (run_events env kind s evs) then 0 else 1)
   \<le> written_done s + done_frames (pending s) + (if respondedDone s then 0 else 1)
     + done_frames (snd (transform_all env (trans s) (data_chunks evs)))"
proof (induction evs arbitrary: s)
  case Nil
  then show ?case by (simp add: run_events_Nil done_frames_def)
next
  case (Cons ev evs)
  let ?s1 = "piping env s ev"
  have ph: "phase ?s1 = Piping" using Cons.prems by (simp add: piping_phase)
  note ih = Cons.IH [OF ph]
  note st = piping_count [of env s ev]
  have tr: "done_frames (snd (transform_all env (trans s) (data_chunks (ev # evs))))
      = (case ev of UpstreamData chunk \<Rightarrow> done_frames (snd (transform env (trans s) chunk))
         | _ \<Rightarrow> 0)
        + done_frames (snd (transform_all env (trans ?s1) (data_chunks evs)))"
    unfolding piping_trans
    by (cases ev) (auto simp: done_frames_append split: prod.splits)
  have r: "run_events env kind s (ev # evs) = run_events env kind ?s1 evs"
    using Cons.prems by (simp add: run_events_Cons handle_Piping)
  show ?case
    unfolding r tr using ih st by (auto split: if_splits)
qed

subsection \<open>Waiting for the upstream\<close>

lemma untouched_handle:
  "untouched s \<Longrightarrow> \<not> dispatch_event ev \<Longrightarrow> untouched (handle env kind s ev)"
  by (cases ev) (auto simp: untouched_def handle_def keepalive_tick_def res_write_def)

lemma untouched_run:
  "untouched s \<Longrightarrow> \<forall>ev \<in> set evs. \<not> dispatch_event ev \<Longrightarrow>
   untouched (run_events env kind s evs)"
proof (induction evs arbitrary: s)
  case Nil
  then show ?case by (simp add: run_events_Nil)
next
  case (Cons ev evs)
  then show ?case by (simp add: run_events_Cons untouched_handle)
qed

lemma untouched_new_session: "untouched new_session"
  by (simp add: untouched_def new_session_def)

lemma filter_Done_comments:
  "filter (\<lambda>w. w \<noteq> KeepAliveComment) ws = [] \<Longrightarrow> filter (\<lambda>w. w = Data Done) ws = []"
  by (induction ws) (auto split: if_splits)


lemma failed_run:
  "phase s = Failed \<Longrightarrow> \<not> keepaliveSet s \<Longrightarrow> run_events env kind s evs = s"
proof (induction evs)
  case Nil
  show ?case by (simp add: run_events_Nil)
next
  case (Cons ev evs)
  from Cons.prems have "handle env kind s ev = s"
    by (cases ev) (simp_all add: handle_def keepalive_tick_def)
  with Cons show ?case by (simp add: run_events_Cons)
qed

lemma catch_branch_pool:
  assumes "untouched s"
  shows "filter (\<lambda>w. w \<noteq> KeepAliveComment)
           (written (run_events env PoolIdentity (catch_branch PoolIdentity msg s) post))
         = [Data (Chunk (JStr (''Upstream API request failed: '' @ msg)) True), Data Done]
     \<and> writableEnded (run_events env PoolIdentity (catch_branch PoolIdentity msg s) post)"
proof -
  have "phase (catch_branch PoolIdentity msg s) = Failed"
    "\<not> keepaliveSet (catch_branch PoolIdentity msg s)"
    by (simp_all add: catch_branch_def cleanup_def)
  then have "run_events env PoolIdentity (catch_branch PoolIdentity msg s) post
      = catch_branch PoolIdentity msg s"
    by (rule failed_run)
  with assms show ?thesis
    by (simp add: catch_branch_def cleanup_def untouched_def)
qed

lemma accepted_start:
  assumes "code < 400" and "\<forall>e \<in> set wait. \<not> dispatch_event e"
  shows "run_events env PoolIdentity new_session (wait @ DispatchResponded code # evs)
       = run_events env PoolIdentity
           ((run_events env PoolIdentity new_session wait)\<lparr>phase := Piping\<rparr>) evs"
    and "untouched (run_events env PoolIdentity new_session wait)"
proof -
  show u: "untouched (run_events env PoolIdentity new_session wait)"
    using untouched_new_session assms(2) by (rule untouched_run)
  then have "handle env PoolIdentity (run_events env PoolIdentity new_session wait)
        (DispatchResponded code)
      = (run_events env PoolIdentity new_session wait)\<lparr>phase := Piping\<rparr>"
    using assms(1) by (simp add: handle_def untouched_def upstream_responded_def)
  then show "run_events env PoolIdentity new_session (wait @ DispatchResponded code # evs)
       = run_events env PoolIdentity
           ((run_events env PoolIdentity new_session wait)\<lparr>phase := Piping\<rparr>) evs"
    by (simp add: run_events_append run_events_Cons)
qed

lemma sentinel_upper_bound:
  assumes "code < 400" and "\<forall>e \<in> set wait. \<not> dispatch_event e"
  shows "written_done (run_events env PoolIdentity new_session (wait @ DispatchResponded code # evs))
     \<le> done_frames (snd (transform_all env new_transformer (data_chunks evs))) + 1"
proof -
  let ?s0 = "(run_events env PoolIdentity new_session wait)\<lparr>phase := Piping\<rparr>"
  from accepted_start(2) [OF assms] have u: "untouched (run_events env PoolIdentity new_session wait)" .
  then have s0: "phase ?s0 = Piping" "written_done ?s0 = 0" "pending ?s0 = []"
    "\<not> respondedDone ?s0" "trans ?s0 = new_transformer"
    by (simp_all add: untouched_def written_done_def filter_Done_comments)
  from run_events_count [OF s0(1), of env PoolIdentity evs] s0
  have "written_done (run_events env PoolIdentity ?s0 evs)
      \<le> done_frames (snd (transform_all env new_transformer (data_chunks evs))) + 1"
    by (simp add: done_frames_def split: if_splits)
  then show ?thesis by (simp add: accepted_start(1) [OF assms])
qed

lemma sentinel_lower_bound:
  assumes "code < 400" and "\<forall>e \<in> set wait. \<not> dispatch_event e"
    and "\<forall>e \<in> set pre. \<not> cleanup_event e" and "ending_event ev"
  shows "1 \<le> written_done
        (run_events env PoolIdentity new_session (wait @ DispatchResponded code # pre @ ev # post))
     \<and> writableEnded
        (run_events env PoolIdentity new_session (wait @ DispatchResponded code # pre @ ev # post))"
proof -
  let ?s0 = "(run_events env PoolIdentity new_session wait)\<lparr>phase := Piping\<rparr>"
  let ?s1 = "run_events env PoolIdentity ?s0 pre"
  from accepted_start(2) [OF assms(1,2)]
  have u: "untouched (run_events env PoolIdentity new_session wait)" .
  then have s0: "phase ?s0 = Piping" "open_inv ?s0"
    by (simp_all add: untouched_def open_inv_def)
  then have "open_inv ?s1" using assms(3) by (rule open_inv_run)
  moreover have p1: "phase ?s1 = Piping" using s0(1) by (rule run_events_phase_Piping)
  ultimately have "Data Done \<in> set (written (handle env PoolIdentity ?s1 ev))
      \<and> writableEnded (handle env PoolIdentity ?s1 ev)"
    using assms(4) by (simp add: handle_Piping ending_event_done)
  then have d: "Data Done \<in> set (written (run_events env PoolIdentity ?s0 (pre @ ev # post)))
      \<and> writableEnded (run_events env PoolIdentity ?s0 (pre @ ev # post))"
    using run_events_keeps_done [of "handle env PoolIdentity ?s1 ev" env PoolIdentity post]
    by (simp add: run_events_append run_events_Cons)
  then have "filter (\<lambda>w. w = Data Done)
      (written (run_events env PoolIdentity ?s0 (pre @ ev # post))) \<noteq> []"
    by (auto simp: filter_empty_conv)
  then have "1 \<le> written_done (run_events env PoolIdentity ?s0 (pre @ ev # post))"
    by (simp add: written_done_def Suc_le_eq)
  with d show ?thesis by (simp add: accepted_start(1) [OF assms(1,2)])
qed

text \<open>
  C1, amended. For a streamed response served with an identity of the pool whose
  upstream request is accepted: when the upstream stream ends or closes, the
  transformer ends or the client closes the request, and no cleanup callback has run
  before, the response has received the terminal frame at least once and is ended,
  whatever chunks and errors came before, and whatever comes after. The response
  never holds more terminal frames than the transformer pushed plus one: what
  \<^verbatim>\<open>safeWriteDone\<close> adds over all its calls is at most one frame, and a call writes
  exactly one frame when neither the guard nor the end of the response stops it, and
  nothing otherwise. When the upstream request fails, the response gets, apart from
  keepalive comments, exactly one error chunk followed by one terminal frame, and is
  ended. A non-streaming response is a JSON body without a terminal frame.
\<close>

theorem terminal_frame_at_least_once:
  "(code < 400 \<and> (\<forall>e \<in> set wait. \<not> dispatch_event e)
      \<and> (\<forall>e \<in> set pre. \<not> cleanup_event e) \<and> ending_event ev \<longrightarrow>
      1 \<le> sentinel_count (EventStream (written
            (run_events env PoolIdentity new_session
               (wait @ DispatchResponded code # pre @ ev # post))))
      \<and> writableEnded
            (run_events env PoolIdentity new_session
               (wait @ DispatchResponded code # pre @ ev # post)))
   \<and> (code < 400 \<and> (\<forall>e \<in> set wait. \<not> dispatch_event e) \<longrightarrow>
      sentinel_count (EventStream (written
            (run_events env PoolIdentity new_session (wait @ DispatchResponded code # evs))))
      \<le> done_frames (snd (transform_all env new_transformer (data_chunks evs))) + 1)
   \<and> written (safeWriteDone s) =
        (if respondedDone s \<or> writableEnded s then written s else written s @ [Data Done])
   \<and> respondedDone (safeWriteDone s)
   \<and> ((\<forall>e \<in> set wait. \<not> dispatch_event e) \<longrightarrow>
      filter (\<lambda>w. w \<noteq> KeepAliveComment)
        (written (run_events env PoolIdentity new_session (wait @ DispatchRejected msg # post)))
      = [Data (Chunk (JStr (''Upstream API request failed: '' @ msg)) True), Data Done]
      \<and> writableEnded (run_events env PoolIdentity new_session (wait @ DispatchRejected msg # post)))
   \<and> (400 \<le> code \<and> (\<forall>e \<in> set wait. \<not> dispatch_event e) \<longrightarrow>
      filter (\<lambda>w. w \<noteq> KeepAliveComment)
        (written (run_events env PoolIdentity new_session (wait @ DispatchResponded code # post)))
      = [Data (Chunk (JStr (''Upstream API request failed: ''
                            @ ''Upstream API returned error: '' @ digits_of code)) True),
         Data Done]
      \<and> writableEnded (run_events env PoolIdentity new_session (wait @ DispatchResponded code # post)))
   \<and> sentinel_count (non_streaming_response kind content) = 0"
proof -
  have a: "1 \<le> sentinel_count (EventStream (written
            (run_events env PoolIdentity new_session
               (wait @ DispatchResponded code # pre @ ev # post))))
      \<and> writableEnded
            (run_events env PoolIdentity new_session
               (wait @ DispatchResponded code # pre @ ev # post))"
    if "code < 400" "\<forall>e \<in> set wait. \<not> dispatch_event e"
      "\<forall>e \<in> set pre. \<not> cleanup_event e" "ending_event ev"
    using sentinel_lower_bound [OF that, of env post] by (simp add: written_done_def)
  have b: "sentinel_count (EventStream (written
            (run_events env PoolIdentity new_session (wait @ DispatchResponded code # evs))))
      \<le> done_frames (snd (transform_all env new_transformer (data_chunks evs))) + 1"
    if "code < 400" "\<forall>e \<in> set wait. \<not> dispatch_event e"
    using sentinel_upper_bound [OF that, of env evs] by (simp add: written_done_def)
  have c: "written (safeWriteDone s) =
        (if respondedDone s \<or> writableEnded s then written s else written s @ [Data Done])"
    "respondedDone (safeWriteDone s)"
    by (simp_all add: safeWriteDone_def res_end_def res_write_def)
  have d: "filter (\<lambda>w. w \<noteq> KeepAliveComment)
        (written (run_events env PoolIdentity new_session (wait @ DispatchRejected msg # post)))
      = [Data (Chunk (JStr (''Upstream API request failed: '' @ msg)) True), Data Done]
      \<and> writableEnded (run_events env PoolIdentity new_session (wait @ DispatchRejected msg # post))"
    if w: "\<forall>e \<in> set wait. \<not> dispatch_event e"
  proof -
    have u: "untouched (run_events env PoolIdentity new_session wait)"
      using untouched_new_session w by (rule untouched_run)
    then have "handle env PoolIdentity (run_events env PoolIdentity new_session wait)
          (DispatchRejected msg)
        = catch_branch PoolIdentity msg (run_events env PoolIdentity new_session wait)"
      by (simp add: handle_def untouched_def)
    with catch_branch_pool [OF u, of env msg post] show ?thesis
      by (simp add: run_events_append run_events_Cons)
  qed
  have e: "filter (\<lambda>w. w \<noteq> KeepAliveComment)
        (written (run_events env PoolIdentity new_session (wait @ DispatchResponded code # post)))
      = [Data (Chunk (JStr (''Upstream API request failed: ''
                            @ ''Upstream API returned error: '' @ digits_of code)) True),
         Data Done]
      \<and> writableEnded (run_events env PoolIdentity new_session (wait @ DispatchResponded code # post))"
    if c4: "400 \<le> code" and w: "\<forall>e \<in> set wait. \<not> dispatch_event e"
  proof -
    have u: "untouched (run_events env PoolIdentity new_session wait)"
      using untouched_new_session w by (rule untouched_run)
    then have "handle env PoolIdentity (run_events env PoolIdentity new_session wait)
          (DispatchResponded code)
        = catch_branch PoolIdentity (''Upstream API returned error: '' @ digits_of code)
            (run_events env PoolIdentity new_session wait)"
      using c4 by (simp add: handle_def untouched_def upstream_responded_def)
    with catch_branch_pool [OF u, of env "''Upstream API returned error: '' @ digits_of code" post]
    show ?thesis
      by (simp add: run_events_append run_events_Cons)
  qed
  have f: "sentinel_count (non_streaming_response kind content) = 0"
    by (cases kind) (simp_all add: non_streaming_response_def)
  from a b c d e f show ?thesis by blast
qed

theorem terminal_frame_at_least_once_witness:
  "1 \<le> sentinel_count (EventStream (written
      (run_events sample_env PoolIdentity new_session
         [KeepAliveTick, DispatchResponded 200, UpstreamData ''partial'', PipeWrite,
          UpstreamError, UpstreamClose, ResponseFinish])))
   \<and> filter (\<lambda>w. w \<noteq> KeepAliveComment)
        (written (run_events sample_env PoolIdentity new_session
           [KeepAliveTick, DispatchRejected ''socket hang up'', KeepAliveTick]))
      = [Data (Chunk (JStr ''Upstream API request failed: socket hang up'') True), Data Done]"
  using terminal_frame_at_least_once
    [where code = 200 and wait = "[KeepAliveTick]"
       and pre = "[UpstreamData ''partial'', PipeWrite, UpstreamError]"
       and ev = UpstreamClose and env = sample_env and post = "[ResponseFinish]"]
    terminal_frame_at_least_once
    [where wait = "[KeepAliveTick]" and env = sample_env and post = "[KeepAliveTick]"
       and msg = "''socket hang up''"]
  by simp

end
